theory Spec2Isabelle
  imports Main "HOL-Library.AList"
begin

section \<open>Strings of the source text\<close>

text \<open>
  The Markdown source is a JavaScript string, addressed by code-unit offsets. It is
  modelled as a \<open>string\<close> (a list of 8-bit code units); offsets are \<open>int\<close>, since the
  converter computes \<open>node.from + 1\<close>, \<open>node.to - 1\<close> and \<open>mark.to - mark.from\<close> on them.
\<close>

definition clamp_index :: "string \<Rightarrow> int \<Rightarrow> nat" where
  "clamp_index s i = (if i < 0 then 0 else min (nat i) (length s))"

text \<open>
  \<open>String.prototype.substring(start, end)\<close>: both indices are clamped to
  \<open>[0, length]\<close>, and swapped when \<open>start > end\<close>.
\<close>

definition substring :: "string \<Rightarrow> int \<Rightarrow> int \<Rightarrow> string" where
  "substring s start end =
     (let a = clamp_index s start; b = clamp_index s end
      in take (max a b - min a b) (drop (min a b) s))"

text \<open>
  White space as \<open>String.prototype.trim\<close> and the regular expression class \<open>\s\<close> see
  it, restricted to the code units below 256: TAB, LF, VT, FF, CR, SPACE and NBSP.
\<close>

definition is_whitespace :: "char \<Rightarrow> bool" where
  "is_whitespace c =
     (c \<in> set [CHR 0x09, CHR 0x0A, CHR 0x0B, CHR 0x0C, CHR 0x0D, CHR 0x20, CHR 0xA0])"

definition trim :: "string \<Rightarrow> string" where
  "trim s = rev (dropWhile is_whitespace (rev (dropWhile is_whitespace s)))"

definition startsWith :: "string \<Rightarrow> char \<Rightarrow> bool" where
  "startsWith s c = (case s of [] \<Rightarrow> False | x # _ \<Rightarrow> x = c)"

definition endsWith :: "string \<Rightarrow> char \<Rightarrow> bool" where
  "endsWith s c = (s \<noteq> [] \<and> last s = c)"

definition includes_unit :: "string \<Rightarrow> char \<Rightarrow> bool" where
  "includes_unit s c = (c \<in> set s)"

text \<open>
  \<open>s.split(/\s+/)\<close>: the pieces between maximal runs of white space. A leading or
  trailing run leaves an empty first or last piece; the empty string gives \<open>['']\<close>.
  \<open>split_ws_from cur inrun s\<close> carries the piece read so far (reversed) and whether the
  last unit read belongs to a separator run.
\<close>

fun split_ws_from :: "string \<Rightarrow> bool \<Rightarrow> string \<Rightarrow> string list" where
  "split_ws_from cur inrun [] = [rev cur]"
| "split_ws_from cur inrun (c # cs) =
     (if is_whitespace c then
        (if inrun then split_ws_from cur True cs
         else rev cur # split_ws_from [] True cs)
      else split_ws_from (c # cur) False cs)"

definition split_ws :: "string \<Rightarrow> string list" where
  "split_ws s = split_ws_from [] False s"

text \<open>\<open>s.split('=')\<close>, for a one-unit separator.\<close>

fun split_on_from :: "char \<Rightarrow> string \<Rightarrow> string \<Rightarrow> string list" where
  "split_on_from sep cur [] = [rev cur]"
| "split_on_from sep cur (c # cs) =
     (if c = sep then rev cur # split_on_from sep [] cs
      else split_on_from sep (c # cur) cs)"

definition split_on :: "char \<Rightarrow> string \<Rightarrow> string list" where
  "split_on sep s = split_on_from sep [] s"

section \<open>The abstract syntax tree\<close>

text \<open>
  \<open>Record<string, string>\<close>, a plain JavaScript object: an association list of its own
  properties, one entry per key; \<open>map_of\<close> reads an own property.
\<close>

type_synonym attrs = "(string \<times> string) list"

text \<open>
  \<open>interface TextNode extends MDNode\<close>; its \<open>type\<close> is always \<open>'Text'\<close>. The fields \<open>from\<close>
  and \<open>value\<close> are written \<open>from'\<close> and \<open>value'\<close> here and below, the plain names being
  keywords of Isabelle.
\<close>

datatype TextNode =
  TextNode (name: string) (from': int) (to: int) (value': string) (attributes: "attrs option")

text \<open>The \<open>marker\<close> object of a list item.\<close>

datatype Marker =
  Marker (symbol: "string option") (from': int) (to: int)

text \<open>
  \<open>type ASTNode\<close>, a union tagged by \<open>type\<close>: one constructor per interface, each with
  the fields of \<open>MDNode\<close> (\<open>name\<close>, \<open>from\<close>, \<open>to\<close>, the optional \<open>attributes\<close>) and its
  own. \<open>LinkOrImage\<close> keeps its \<open>type\<close> (\<open>'Link'\<close> or \<open>'Image'\<close>) as a field. The type
  parameter is \<open>CitePosition\<close>, which the citation extractor defines.
\<close>

datatype 'c ASTNode =
    Footnote (name: string) (from': int) (to: int) (inline: bool) (label: string)
      (attributes: "attrs option")
  | FootnoteRef (name: string) (from': int) (to: int) (label: string)
      (children: "'c ASTNode list") (attributes: "attrs option")
  | LinkOrImage (type: string) (name: string) (from': int) (to: int)
      (url: TextNode) (alt: TextNode) (title: "TextNode option") (attributes: "attrs option")
  | Text TextNode
  | Heading (name: string) (from': int) (to: int) (heading_value: TextNode) (level: int)
      (attributes: "attrs option")
  | Citation (name: string) (from': int) (to: int) (citation_value: TextNode)
      (parsedCitation: "'c option") (attributes: "attrs option")
  | Highlight (name: string) (from': int) (to: int)
      (children: "'c ASTNode list") (attributes: "attrs option")
  | List (name: string) (from': int) (to: int) (ordered: bool) (items: "'c ASTNode list")
      (attributes: "attrs option")
  | ListItem (name: string) (from': int) (to: int) (checked: "bool option") (marker: Marker)
      (children: "'c ASTNode list") (attributes: "attrs option")
  | FencedCode (name: string) (from': int) (to: int) (info: string) (source: string)
      (attributes: "attrs option")
  | YAMLFrontmatter (name: string) (from': int) (to: int) (info: string) (source: string)
      (attributes: "attrs option")
  | InlineCode (name: string) (from': int) (to: int) (source: string)
      (attributes: "attrs option")
  | Emphasis (name: string) (which: string) (from': int) (to: int)
      (children: "'c ASTNode list") (attributes: "attrs option")
  | Table (name: string) (from': int) (to: int) (rows: "'c ASTNode list")
      (attributes: "attrs option")
  | TableRow (name: string) (from': int) (to: int) (isHeaderOrFooter: bool)
      (cells: "'c ASTNode list") (attributes: "attrs option")
  | TableCell (name: string) (from': int) (to: int)
      (children: "'c ASTNode list") (attributes: "attrs option")
  | ZettelkastenLink (name: string) (from': int) (to: int) (zkn_value: TextNode)
      (attributes: "attrs option")
  | ZettelkastenTag (name: string) (from': int) (to: int) (zkn_value: TextNode)
      (attributes: "attrs option")
  | Generic (name: string) (from': int) (to: int)
      (children: "'c ASTNode list") (attributes: "attrs option")

text \<open>The range of any node of the union (a \<open>Text\<close> node has the range of its \<open>TextNode\<close>).\<close>

definition ast_from :: "'c ASTNode \<Rightarrow> int" where
  "ast_from a = (case a of Text t \<Rightarrow> TextNode.from' t | _ \<Rightarrow> ASTNode.from' a)"

definition ast_to :: "'c ASTNode \<Rightarrow> int" where
  "ast_to a = (case a of Text t \<Rightarrow> TextNode.to t | _ \<Rightarrow> ASTNode.to a)"

section \<open>The concrete syntax tree\<close>

text \<open>
  A Lezer \<open>SyntaxNode\<close>: its type name, its range and its direct sub-nodes in document
  order. \<open>firstChild\<close> is \<open>null\<close> exactly when \<open>children\<close> is empty, and following
  \<open>nextSibling\<close> from \<open>firstChild\<close> walks \<open>children\<close>.
\<close>

datatype SyntaxNode =
  SyntaxNode (name: string) (from': int) (to: int) (children: "SyntaxNode list")

definition getChild :: "SyntaxNode \<Rightarrow> string \<Rightarrow> SyntaxNode option" where
  "getChild node t = find (\<lambda>c. name c = t) (children node)"

definition getChildren :: "SyntaxNode \<Rightarrow> string \<Rightarrow> SyntaxNode list" where
  "getChildren node t = filter (\<lambda>c. name c = t) (children node)"

section \<open>The converter\<close>

datatype error = Error string | TypeError

definition EMPTY_NODES :: "string list" where
  "EMPTY_NODES =
     [''HeaderMark'', ''CodeMark'', ''EmphasisMark'', ''QuoteMark'', ''ListMark'',
      ''YAMLFrontmatterStart'', ''YAMLFrontmatterEnd'', ''Document'', ''List'', ''ListItem'',
      ''PandocAttribute'']"

definition genericTextNode :: "int \<Rightarrow> int \<Rightarrow> string \<Rightarrow> TextNode" where
  "genericTextNode f t v = TextNode ''text'' f t v None"

text \<open>
  The assignment \<open>obj[key] = value\<close> of a string to a property of a plain object: it
  overwrites the own property \<open>key\<close> or adds it. The one exception is the key
  \<open>__proto__\<close>, an accessor that the object inherits: its setter ignores a value that is
  neither an object nor \<open>null\<close>, so the assignment changes nothing.
\<close>

definition set_property :: "attrs \<Rightarrow> string \<Rightarrow> string \<Rightarrow> attrs" where
  "set_property obj key v = (if key = ''__proto__'' then obj else AList.update key v obj)"

text \<open>
  The body of the \<open>for\<close> loop of \<open>parseAttributeNode\<close>: one attribute of
  \<open>{#identifier .class key=value}\<close> merged into the attributes read so far. The tests
  \<open>'class' in oldAttributes\<close> and \<open>'id' in oldAttributes\<close> look for an own property: an
  object literal inherits no property of these names.
\<close>

definition parseAttribute :: "attrs \<Rightarrow> string \<Rightarrow> attrs" where
  "parseAttribute oldAttributes attribute =
     (if startsWith attribute CHR ''.'' then
        (case map_of oldAttributes ''class'' of
           Some cls \<Rightarrow> set_property oldAttributes ''class'' (cls @ '' '' @ drop 1 attribute)
         | None \<Rightarrow> set_property oldAttributes ''class'' (drop 1 attribute))
      else if startsWith attribute CHR ''#'' \<and> map_of oldAttributes ''id'' = None then
        set_property oldAttributes ''id'' (drop 1 attribute)
      else if includes_unit attribute CHR ''='' then
        (let parts = split_on CHR ''='' attribute
         in if length parts = 2 then set_property oldAttributes (parts ! 0) (parts ! 1)
            else oldAttributes)
      else oldAttributes)"

text \<open>An absent \<open>oldAttributes\<close> takes the default \<open>{}\<close>.\<close>

definition parseAttributeNode :: "attrs option \<Rightarrow> SyntaxNode \<Rightarrow> string \<Rightarrow> attrs" where
  "parseAttributeNode oldAttributes node markdown =
     (let old = (case oldAttributes of None \<Rightarrow> [] | Some a \<Rightarrow> a)
      in if name node \<noteq> ''PandocAttribute'' then old
         else foldl parseAttribute old
                (split_ws (substring markdown (from' node + 1) (to node - 1))))"

text \<open>Sub-nodes are smaller than their node: the measure of the recursion below.\<close>

lemma size_child:
  "c \<in> set (children node) \<Longrightarrow> size c < size node"
  by (cases node) (auto simp: less_Suc_eq_le size_list_estimation')

lemma size_getChild:
  "getChild node t = Some c \<Longrightarrow> size c < size node"
  by (auto simp: getChild_def find_Some_iff intro: size_child)

lemma size_list_filter:
  "size_list f (filter P xs) \<le> size_list f xs"
  by (induction xs) auto

lemma size_children:
  "size_list size (children node) < size node"
  by (cases node) simp

lemma size_getChildren:
  "size_list size (getChildren node t) < size node"
  unfolding getChildren_def
  by (rule le_less_trans [OF size_list_filter size_children])

lemma size_list_filter_disj:
  "(\<And>x. \<not> (P x \<and> Q x)) \<Longrightarrow> size_list f (filter P xs) + size_list f (filter Q xs) \<le> size_list f xs"
  by (induction xs) auto

lemma size_table_rows:
  "size_list size (getChildren node ''TableHeader'' @ getChildren node ''TableRow'') < size node"
proof -
  have "size_list size (getChildren node ''TableHeader'') + size_list size (getChildren node ''TableRow'')
        \<le> size_list size (children node)"
    unfolding getChildren_def by (rule size_list_filter_disj) auto
  then show ?thesis using size_children [of node] by simp
qed

lemma measure_getChildren:
  "2 * size_list size (getChildren node t) + 1 < 2 * size node + 2"
  "2 * size_list size (getChildren row t) + 1 < 2 * size_list size (row # rest) + 1"
  using size_getChildren [of node t] size_getChildren [of row t] by simp_all

lemma measure_table_rows:
  "2 * size_list size (getChildren node ''TableHeader'' @ getChildren node ''TableRow'') + 1
     < 2 * size node + 2"
  using size_table_rows [of node] by simp

lemma measure_getChild:
  "getChild node t = Some c \<Longrightarrow> 2 * size c + 1 < 2 * size node + 2"
  using size_getChild [of node t c] by simp

lemma measure_children:
  "2 * size_list size (children node) + 1 < 2 * size node + 1"
  using size_children [of node] by simp

text \<open>
  \<open>parseNode\<close> and \<open>parseChildren\<close>, with the loops of the source as functions of their
  own: \<open>parseChildrenLoop\<close> is the \<open>while\<close> loop of \<open>parseChildren\<close>, \<open>parseListItems\<close>
  the \<open>for\<close> loop over the items of a list, \<open>parseTableRows\<close> and \<open>parseTableCells\<close> the
  two nested \<open>for\<close> loops of a table. A thrown exception is \<open>Inl\<close> and ends every
  enclosing loop.

  \<open>parseChildren\<close> mutates two fields of its \<open>astNode\<close>, \<open>children\<close> and \<open>attributes\<close>, and
  returns it: here it takes the pair of both fields and returns the new pair, from which
  the caller builds the node. \<open>extractCitations\<close> is the citation extractor, a function
  of another module.
\<close>

function (sequential)
  parseNode :: "(string \<Rightarrow> 'c list) \<Rightarrow> SyntaxNode \<Rightarrow> string \<Rightarrow> error + 'c ASTNode"
  and parseChildren :: "(string \<Rightarrow> 'c list) \<Rightarrow> 'c ASTNode list \<times> attrs option \<Rightarrow> SyntaxNode \<Rightarrow> string
        \<Rightarrow> error + ('c ASTNode list \<times> attrs option)"
  and parseChildrenLoop :: "(string \<Rightarrow> 'c list) \<Rightarrow> SyntaxNode \<Rightarrow> string \<Rightarrow> SyntaxNode list \<Rightarrow> int
        \<Rightarrow> 'c ASTNode list \<times> attrs option \<Rightarrow> error + ('c ASTNode list \<times> attrs option) \<times> int"
  and parseListItems :: "(string \<Rightarrow> 'c list) \<Rightarrow> bool \<Rightarrow> string \<Rightarrow> SyntaxNode list
        \<Rightarrow> error + 'c ASTNode list"
  and parseTableRows :: "(string \<Rightarrow> 'c list) \<Rightarrow> string \<Rightarrow> SyntaxNode list \<Rightarrow> error + 'c ASTNode list"
  and parseTableCells :: "(string \<Rightarrow> 'c list) \<Rightarrow> string \<Rightarrow> SyntaxNode list \<Rightarrow> error + 'c ASTNode list"
where
  "parseNode extractCitations node markdown =
    (if name node = ''Image'' \<or> name node = ''Link'' then
       (let alt_node = getChild node ''LinkLabel'' in
        case getChild node ''URL'' of
          None \<Rightarrow>
            Inr (Generic (name node) (from' node) (to node)
                   [Text (genericTextNode (from' node) (to node)
                            (substring markdown (from' node) (to node)))] None)
        | Some url_node \<Rightarrow>
            (let url_text = genericTextNode (from' url_node) (to url_node)
                              (substring markdown (from' url_node) (to url_node));
                 marks = getChildren node ''LinkMark''
             in Inr (LinkOrImage (name node) (name node) (from' node) (to node) url_text
                       (if alt_node = None \<and> length marks \<ge> 2
                        then genericTextNode (to (marks ! 0)) (from' (marks ! 1))
                               (substring markdown (to (marks ! 0)) (from' (marks ! 1)))
                        else url_text)
                       None None)))
     else if name node = ''URL'' then
       Inr (LinkOrImage ''Link'' (name node) (from' node) (to node)
              (genericTextNode (from' node) (to node) (substring markdown (from' node) (to node)))
              (genericTextNode (from' node) (to node) (substring markdown (from' node) (to node)))
              None None)
     else if name node \<in> set [''ATXHeading1'', ''ATXHeading2'', ''ATXHeading3'',
                               ''ATXHeading4'', ''ATXHeading5'', ''ATXHeading6''] then
       (let mark = getChild node ''HeaderMark'';
            level' = (case mark of Some m \<Rightarrow> to m - from' m | None \<Rightarrow> 0);
            start = (case mark of Some m \<Rightarrow> to m | None \<Rightarrow> from' node)
        in Inr (Heading (name node) (from' node) (to node)
                  (genericTextNode start (to node) (trim (substring markdown start (to node))))
                  level' None))
     else if name node = ''SetextHeading1'' \<or> name node = ''SetextHeading2'' then
       (let mark = getChild node ''HeaderMark'';
            level' = (case mark of
                       Some m \<Rightarrow>
                         if includes_unit (substring markdown (from' m) (to m)) CHR ''-''
                         then 2 else 1
                     | None \<Rightarrow> 1)
        in Inr (Heading (name node) (from' node) (to node)
                  (genericTextNode (case mark of Some m \<Rightarrow> to m | None \<Rightarrow> from' node) (to node)
                     (trim (substring markdown (from' node)
                              (case mark of Some m \<Rightarrow> from' m | None \<Rightarrow> to node))))
                  level' None))
     else if name node = ''Citation'' then
       Inr (Citation ''Citation'' (from' node) (to node)
              (genericTextNode (from' node) (to node) (substring markdown (from' node) (to node)))
              (case extractCitations (substring markdown (from' node) (to node)) of
                 [] \<Rightarrow> None | c # _ \<Rightarrow> Some c)
              None)
     else if name node = ''Footnote'' then
       (let contents = substring markdown (from' node + 2) (to node - 1)
        in Inr (Footnote ''Footnote'' (from' node) (to node)
                  (endsWith contents CHR ''^'')
                  (if endsWith contents CHR ''^''
                   then substring contents 0 (int (length contents) - 1) else contents)
                  None))
     else if name node = ''FootnoteRef'' then
       (let label_node = getChild node ''FootnoteRefLabel'';
            label_text = (case label_node of
                            Some l \<Rightarrow> substring markdown (from' l + 2) (to l - 2)
                          | None \<Rightarrow> [])
        in case getChild node ''FootnoteRefBody'' of
             Some body \<Rightarrow>
               (case parseChildren extractCitations ([], None) body markdown of
                  Inl e \<Rightarrow> Inl e
                | Inr (cs, as) \<Rightarrow>
                    Inr (FootnoteRef ''FootnoteRef'' (from' node) (to node) label_text cs as))
           | None \<Rightarrow>
               Inr (FootnoteRef ''FootnoteRef'' (from' node) (to node) label_text [] None))
     else if name node = ''Highlight'' then
       (case (case getChild node ''HighlightContent'' of
                Some content \<Rightarrow> parseChildren extractCitations ([], None) content markdown
              | None \<Rightarrow> parseChildren extractCitations ([], None) node markdown) of
          Inl e \<Rightarrow> Inl e
        | Inr (cs, as) \<Rightarrow> Inr (Highlight ''Highlight'' (from' node) (to node) cs as))
     else if name node = ''OrderedList'' \<or> name node = ''BulletList'' then
       (case parseListItems extractCitations (name node = ''OrderedList'') markdown
               (getChildren node ''ListItem'') of
          Inl e \<Rightarrow> Inl e
        | Inr its \<Rightarrow>
            Inr (List (name node) (from' node) (to node) (name node = ''OrderedList'') its None))
     else if name node = ''FencedCode'' \<or> name node = ''CodeBlock'' then
       (let mark = getChild node ''CodeMark'';
            info_node = (case mark of
                      Some m \<Rightarrow>
                        if substring markdown (from' m) (to m) = ''$$'' then Some m
                        else getChild node ''CodeInfo''
                    | None \<Rightarrow> getChild node ''CodeInfo'');
            source_node = getChild node ''CodeText'';
            isFrontmatter = (getChild node ''YAMLFrontmatterStart'' \<noteq> None);
            info_text = (case info_node of
                           Some i \<Rightarrow> substring markdown (from' i) (to i) | None \<Rightarrow> []);
            source_text = (case source_node of
                             Some s \<Rightarrow> substring markdown (from' s) (to s) | None \<Rightarrow> [])
        in if isFrontmatter
           then Inr (YAMLFrontmatter ''YAMLFrontmatter'' (from' node) (to node)
                       info_text source_text None)
           else Inr (FencedCode ''FencedCode'' (from' node) (to node)
                       info_text source_text None))
     else if name node = ''InlineCode'' then
       (case getChildren node ''CodeMark'' of
          start # end # _ \<Rightarrow>
            Inr (InlineCode ''InlineCode'' (from' node) (to node)
                   (substring markdown (to start) (from' end)) None)
        | _ \<Rightarrow> Inl TypeError)
     else if name node = ''Emphasis'' \<or> name node = ''StrongEmphasis'' then
       (case parseChildren extractCitations ([], None) node markdown of
          Inl e \<Rightarrow> Inl e
        | Inr (cs, as) \<Rightarrow>
            Inr (Emphasis ''Emphasis''
                   (if name node = ''Emphasis'' then ''italic'' else ''bold'')
                   (from' node) (to node) cs as))
     else if name node = ''Table'' then
       (case parseTableRows extractCitations markdown
               (getChildren node ''TableHeader'' @ getChildren node ''TableRow'') of
          Inl e \<Rightarrow> Inl e
        | Inr rs \<Rightarrow> Inr (Table ''Table'' (from' node) (to node) rs None))
     else if name node = ''ZknLink'' then
       (case getChild node ''ZknLinkContent'' of
          None \<Rightarrow>
            Inl (Error
              ''Could not parse node ZknLink: No ZknLinkContent node found within children!'')
        | Some content \<Rightarrow>
            Inr (ZettelkastenLink ''ZknLink'' (from' node) (to node)
                   (genericTextNode (from' content) (to content)
                      (substring markdown (from' content) (to content)))
                   None))
     else if name node = ''ZknTag'' then
       Inr (ZettelkastenTag ''ZknTag'' (from' node) (to node)
              (genericTextNode (from' node) (to node) (substring markdown (from' node) (to node)))
              None)
     else
       (case parseChildren extractCitations ([], None) node markdown of
          Inl e \<Rightarrow> Inl e
        | Inr (cs, as) \<Rightarrow> Inr (Generic (name node) (from' node) (to node) cs as)))"
| "parseChildren extractCitations astNode node markdown =
    (if children node = [] then
       (if name node \<notin> set EMPTY_NODES
        then Inr ([Text (genericTextNode (from' node) (to node)
                           (substring markdown (from' node) (to node)))], snd astNode)
        else Inr astNode)
     else
       (case parseChildrenLoop extractCitations node markdown (children node) (from' node)
               ([], snd astNode) of
          Inl e \<Rightarrow> Inl e
        | Inr ((cs, as), currentIndex) \<Rightarrow>
            if currentIndex < to node \<and> name node \<notin> set EMPTY_NODES
            then Inr (cs @ [Text (genericTextNode currentIndex (to node)
                                    (substring markdown currentIndex (to node)))], as)
            else Inr (cs, as)))"
| "parseChildrenLoop extractCitations node markdown [] currentIndex astNode =
     Inr (astNode, currentIndex)"
| "parseChildrenLoop extractCitations node markdown (currentChild # siblings) currentIndex
       astNode =
    (let cs = (if from' currentChild > currentIndex \<and> name node \<notin> set EMPTY_NODES
               then fst astNode @
                      [Text (genericTextNode currentIndex (from' currentChild)
                               (substring markdown currentIndex (from' currentChild)))]
               else fst astNode)
     in if name currentChild = ''PandocAttribute'' then
          parseChildrenLoop extractCitations node markdown siblings (to currentChild)
            (cs, Some (parseAttributeNode (snd astNode) currentChild markdown))
        else
          (case parseNode extractCitations currentChild markdown of
             Inl e \<Rightarrow> Inl e
           | Inr child \<Rightarrow>
               parseChildrenLoop extractCitations node markdown siblings (to currentChild)
                 (cs @ [child], snd astNode)))"
| "parseListItems extractCitations isOrdered markdown [] = Inr []"
| "parseListItems extractCitations isOrdered markdown (item # rest) =
    (let listMark = getChild item ''ListMark'';
         marker' = (case listMark of
                     Some lm \<Rightarrow>
                       Marker (if \<not> isOrdered \<and> to lm - from' lm = 1
                               then Some (substring markdown (from' lm) (to lm)) else None)
                         (from' lm) (to lm)
                   | None \<Rightarrow> Marker None (from' item) (from' item));
         task = getChild item ''Task'';
         taskMarker = (case task of Some t \<Rightarrow> getChild t ''TaskMarker'' | None \<Rightarrow> None);
         checked' = (case taskMarker of
                      Some tm \<Rightarrow> Some (substring markdown (from' tm) (to tm) = ''[x]'')
                    | None \<Rightarrow> None)
     in case parseChildren extractCitations ([], None) item markdown of
          Inl e \<Rightarrow> Inl e
        | Inr (cs, as) \<Rightarrow>
            (case parseListItems extractCitations isOrdered markdown rest of
               Inl e \<Rightarrow> Inl e
             | Inr its \<Rightarrow>
                 Inr (ListItem ''ListItem'' (from' item) (to item) checked' marker' cs as # its)))"
| "parseTableRows extractCitations markdown [] = Inr []"
| "parseTableRows extractCitations markdown (row # rest) =
    (case parseTableCells extractCitations markdown (getChildren row ''TableCell'') of
       Inl e \<Rightarrow> Inl e
     | Inr cls \<Rightarrow>
         (case parseTableRows extractCitations markdown rest of
            Inl e \<Rightarrow> Inl e
          | Inr rs \<Rightarrow>
              Inr (TableRow (name row) (from' row) (to row) (name row = ''TableHeader'') cls None
                   # rs)))"
| "parseTableCells extractCitations markdown [] = Inr []"
| "parseTableCells extractCitations markdown (cell # rest) =
    (case parseChildren extractCitations ([], None) cell markdown of
       Inl e \<Rightarrow> Inl e
     | Inr (cs, as) \<Rightarrow>
         (case parseTableCells extractCitations markdown rest of
            Inl e \<Rightarrow> Inl e
          | Inr cls \<Rightarrow> Inr (TableCell ''TableCell'' (from' cell) (to cell) cs as # cls)))"
  by pat_completeness auto


termination parseNode
  apply (relation "measure (\<lambda>x. case x of
      Inl (Inl (ec, n, md)) \<Rightarrow> 2 * size n + 2
    | Inl (Inr (Inl (ec, a, n, md))) \<Rightarrow> 2 * size n + 1
    | Inl (Inr (Inr (ec, n, md, cs, i, a))) \<Rightarrow> 2 * size_list size cs + 1
    | Inr (Inl (ec, b, md, cs)) \<Rightarrow> 2 * size_list size cs + 1
    | Inr (Inr (Inl (ec, md, cs))) \<Rightarrow> 2 * size_list size cs + 1
    | Inr (Inr (Inr (ec, md, cs))) \<Rightarrow> 2 * size_list size cs + 1)")
                  apply simp
                 apply (simp_all only: in_measure sum.case prod.case)
                 apply (simp_all only: measure_getChildren measure_table_rows measure_getChild
      measure_children)
     apply simp_all
  done

declare parseNode.simps [simp del] parseChildren.simps [simp del]

section \<open>Notions for the statements and the proofs\<close>

text \<open>The labels of the \<open>switch\<close> of \<open>parseNode\<close>; every other kind takes its default branch.\<close>

definition dedicated_kinds :: "string list" where
  "dedicated_kinds =
     [''Image'', ''Link'', ''URL'', ''ATXHeading1'', ''ATXHeading2'', ''ATXHeading3'',
      ''ATXHeading4'', ''ATXHeading5'', ''ATXHeading6'', ''SetextHeading1'', ''SetextHeading2'',
      ''Citation'', ''Footnote'', ''FootnoteRef'', ''Highlight'', ''OrderedList'', ''BulletList'',
      ''FencedCode'', ''CodeBlock'', ''InlineCode'', ''Emphasis'', ''StrongEmphasis'', ''Table'',
      ''ZknLink'', ''ZknTag'']"

text \<open>A citation extractor that finds nothing, for the concrete examples.\<close>

definition no_citations :: "string \<Rightarrow> unit list" where
  "no_citations code = []"

subsection \<open>Tilings\<close>

text \<open>
  \<open>tiles a b rs\<close>: the ranges \<open>rs\<close>, in order, cover \<open>[a, b)\<close> with no gap and no overlap:
  the first starts at \<open>a\<close>, each next one starts where the one before ends, and the last
  ends at \<open>b\<close>.
\<close>

fun tiles :: "int \<Rightarrow> int \<Rightarrow> (int \<times> int) list \<Rightarrow> bool" where
  "tiles a b [] = (a = b)"
| "tiles a b ((f, t) # rs) = (f = a \<and> f \<le> t \<and> tiles t b rs)"

definition ranges :: "'c ASTNode list \<Rightarrow> (int \<times> int) list" where
  "ranges cs = map (\<lambda>a. (ast_from a, ast_to a)) cs"

text \<open>
  The invariant of a Lezer tree on the sub-nodes \<open>cs\<close> of a node of range \<open>[a, b)\<close>: they
  come in document order, do not overlap and lie inside the range.
\<close>

fun ordered_within :: "int \<Rightarrow> int \<Rightarrow> SyntaxNode list \<Rightarrow> bool" where
  "ordered_within a b [] = (a \<le> b)"
| "ordered_within a b (c # cs) = (a \<le> from' c \<and> from' c \<le> to c \<and> ordered_within (to c) b cs)"

text \<open>
  The gaps that the sub-nodes \<open>cs\<close> leave in \<open>[idx, t)\<close>: before each sub-node, the span
  from the end of the sub-node before it (from \<open>idx\<close> for the first), when the sub-node
  starts later; after the last sub-node, the span up to \<open>t\<close>, when the sub-node ends
  earlier.
\<close>

fun gaps :: "int \<Rightarrow> int \<Rightarrow> SyntaxNode list \<Rightarrow> (int \<times> int) list" where
  "gaps idx t [] = (if idx < t then [(idx, t)] else [])"
| "gaps idx t (c # cs) = (if from' c > idx then [(idx, from' c)] else []) @ gaps (to c) t cs"

text \<open>The \<open>Text\<close> leaf over a span, holding the source text of the span.\<close>

definition gap_leaf :: "string \<Rightarrow> int \<times> int \<Rightarrow> 'c ASTNode" where
  "gap_leaf md r = Text (TextNode ''text'' (fst r) (snd r) (substring md (fst r) (snd r)) None)"

subsection \<open>Attributes\<close>




subsection \<open>Text nodes\<close>

text \<open>
  The \<open>TextNode\<close>s of a tree, but for the \<open>value\<close> of a \<open>Heading\<close>: the leaves among the
  children, and the \<open>url\<close>, \<open>alt\<close>, \<open>title\<close> and \<open>value\<close> fields of the other nodes.
\<close>

fun text_nodes :: "'c ASTNode \<Rightarrow> TextNode list" where
  "text_nodes (Text t) = [t]"
| "text_nodes (Heading n f t v l as) = []"
| "text_nodes (LinkOrImage ty n f t u a ti as) =
     [u, a] @ (case ti of None \<Rightarrow> [] | Some x \<Rightarrow> [x])"
| "text_nodes (Citation n f t v p as) = [v]"
| "text_nodes (ZettelkastenLink n f t v as) = [v]"
| "text_nodes (ZettelkastenTag n f t v as) = [v]"
| "text_nodes (Footnote n f t i l as) = []"
| "text_nodes (FencedCode n f t i s as) = []"
| "text_nodes (YAMLFrontmatter n f t i s as) = []"
| "text_nodes (InlineCode n f t s as) = []"
| "text_nodes (FootnoteRef n f t l cs as) = concat (map text_nodes cs)"
| "text_nodes (Highlight n f t cs as) = concat (map text_nodes cs)"
| "text_nodes (List n f t b cs as) = concat (map text_nodes cs)"
| "text_nodes (ListItem n f t c m cs as) = concat (map text_nodes cs)"
| "text_nodes (Emphasis n w f t cs as) = concat (map text_nodes cs)"
| "text_nodes (Table n f t cs as) = concat (map text_nodes cs)"
| "text_nodes (TableRow n f t h cs as) = concat (map text_nodes cs)"
| "text_nodes (TableCell n f t cs as) = concat (map text_nodes cs)"
| "text_nodes (Generic n f t cs as) = concat (map text_nodes cs)"

text \<open>Every such \<open>TextNode\<close> holds the source text of its own range.\<close>

definition verbatim :: "string \<Rightarrow> 'c ASTNode \<Rightarrow> bool" where
  "verbatim md a =
     (\<forall>t \<in> set (text_nodes a).
        TextNode.value' t = substring md (TextNode.from' t) (TextNode.to t))"

subsection \<open>Nodes reached by a conversion\<close>

text \<open>
  When \<open>parseNode\<close> raises. \<open>converted node\<close> are the sub-nodes that \<open>parseChildren node\<close>
  hands to \<open>parseNode\<close>, \<open>handed_on node\<close> the nodes that \<open>parseNode node\<close> hands to
  \<open>parseNode\<close> through \<open>parseChildren\<close>, and \<open>reached node\<close> all the nodes that a conversion
  of \<open>node\<close> which no error cuts short calls \<open>parseNode\<close> on.
\<close>

definition converted :: "SyntaxNode \<Rightarrow> SyntaxNode list" where
  "converted node = filter (\<lambda>c. name c \<noteq> ''PandocAttribute'') (children node)"

definition handed_on :: "SyntaxNode \<Rightarrow> SyntaxNode list" where
  "handed_on node =
     (if name node = ''FootnoteRef'' then
        (case getChild node ''FootnoteRefBody'' of Some body \<Rightarrow> converted body | None \<Rightarrow> [])
      else if name node = ''Highlight'' then
        (case getChild node ''HighlightContent'' of
           Some content \<Rightarrow> converted content | None \<Rightarrow> converted node)
      else if name node = ''OrderedList'' \<or> name node = ''BulletList'' then
        concat (map converted (getChildren node ''ListItem''))
      else if name node = ''Emphasis'' \<or> name node = ''StrongEmphasis'' then converted node
      else if name node = ''Table'' then
        concat (map (\<lambda>row. concat (map converted (getChildren row ''TableCell'')))
                  (getChildren node ''TableHeader'' @ getChildren node ''TableRow''))
      else if name node \<in> set dedicated_kinds then []
      else converted node)"

text \<open>The two ways to raise: the \<open>throw\<close> of \<open>ZknLink\<close> and the unguarded marks of \<open>InlineCode\<close>.\<close>

definition raising :: "SyntaxNode \<Rightarrow> bool" where
  "raising node =
     (name node = ''ZknLink'' \<and> getChild node ''ZknLinkContent'' = None
      \<or> name node = ''InlineCode'' \<and> length (getChildren node ''CodeMark'') < 2)"


lemma size_converted:
  "c \<in> set (converted node) \<Longrightarrow> size c < size node"
  by (auto simp: converted_def intro: size_child)

lemma size_getChildren_member:
  "x \<in> set (getChildren node k) \<Longrightarrow> size x < size node"
  by (auto simp: getChildren_def intro: size_child)

lemma size_handed_on:
  assumes "c \<in> set (handed_on node)"
  shows "size c < size node"
proof -
  have via: "size c < size node" if "c \<in> set (converted n)" "size n \<le> size node" for n
    using size_converted [OF that(1)] that(2) by simp
  consider (footnote) body where "getChild node ''FootnoteRefBody'' = Some body"
      "c \<in> set (converted body)"
    | (highlight) content where "getChild node ''HighlightContent'' = Some content"
      "c \<in> set (converted content)"
    | (list) item where "item \<in> set (getChildren node ''ListItem'')" "c \<in> set (converted item)"
    | (table) row cell where
      "row \<in> set (getChildren node ''TableHeader'' @ getChildren node ''TableRow'')"
      "cell \<in> set (getChildren row ''TableCell'')" "c \<in> set (converted cell)"
    | (self) "c \<in> set (converted node)"
    using assms
    by (auto simp: handed_on_def split: if_splits option.splits) (metis set_append UnI1 UnI2)+
  then show ?thesis
  proof cases
    case footnote
    from via [OF footnote(2)] size_getChild [OF footnote(1)] show ?thesis by simp
  next
    case highlight
    from via [OF highlight(2)] size_getChild [OF highlight(1)] show ?thesis by simp
  next
    case list
    from via [OF list(2)] size_getChildren_member [OF list(1)] show ?thesis by simp
  next
    case table
    from table(1) have "size row < size node"
      by (auto dest: size_getChildren_member)
    with size_getChildren_member [OF table(2)] via [OF table(3)] show ?thesis by simp
  next
    case self
    then show ?thesis by (rule size_converted)
  qed
qed

function reached :: "SyntaxNode \<Rightarrow> SyntaxNode list" where
  "reached node = node # concat (map reached (handed_on node))"
  by pat_completeness auto
termination
  by (relation "measure size") (auto intro: size_handed_on)

declare reached.simps [simp del]

subsection \<open>Lemmas on the branches\<close>

lemmas eval_simps = parseNode.simps parseChildren.simps getChild_def getChildren_def
  genericTextNode_def substring_def clamp_index_def EMPTY_NODES_def Let_def

lemma parseNode_default:
  "name node \<notin> set dedicated_kinds \<Longrightarrow>
   parseNode ec node md =
     (case parseChildren ec ([], None) node md of
        Inl e \<Rightarrow> Inl e
      | Inr (cs, as) \<Rightarrow> Inr (Generic (name node) (from' node) (to node) cs as))"
  by (simp add: parseNode.simps dedicated_kinds_def)

lemma kind_cases:
  assumes "\<And>k. k \<in> set dedicated_kinds \<Longrightarrow> name node = k \<Longrightarrow> P"
    and "name node \<notin> set dedicated_kinds \<Longrightarrow> P"
  shows P
  using assms by blast

section \<open>The range of the root\<close>

lemma parseNode_range_case:
  "(case parseNode ec node md of Inl e \<Rightarrow> True
    | Inr ast \<Rightarrow> ast_from ast = from' node \<and> ast_to ast = to node)"
proof (rule kind_cases [of node])
  fix k assume "k \<in> set dedicated_kinds" "name node = k"
  then show ?thesis
    unfolding dedicated_kinds_def list.set insert_iff empty_iff
    apply (elim disjE)
    apply (simp_all add: parseNode.simps Let_def ast_from_def ast_to_def
        split: option.split sum.split list.split prod.split)
    done
next
  assume "name node \<notin> set dedicated_kinds"
  then show ?thesis
    by (simp add: parseNode_default ast_from_def ast_to_def split: sum.split prod.split)
qed

lemma parseNode_Inr_range:
  assumes "parseNode ec node md = Inr ast"
  shows "ast_from ast = from' node" and "ast_to ast = to node"
  using parseNode_range_case [where ec = ec and node = node and md = md] assms by simp_all

lemma parseNode_not_Text_case:
  "(case parseNode ec node md of Inl e \<Rightarrow> True | Inr ast \<Rightarrow> \<not> is_Text ast)"
proof (rule kind_cases [of node])
  fix k assume "k \<in> set dedicated_kinds" "name node = k"
  then show ?thesis
    unfolding dedicated_kinds_def list.set insert_iff empty_iff
    apply (elim disjE)
    apply (simp_all add: parseNode.simps Let_def
        split: option.split sum.split list.split prod.split)
    done
next
  assume "name node \<notin> set dedicated_kinds"
  then show ?thesis
    by (simp add: parseNode_default split: sum.split prod.split)
qed

lemma parseNode_not_Text:
  "parseNode ec node md = Inr ast \<Longrightarrow> \<not> is_Text ast"
  using parseNode_not_Text_case [where ec = ec and node = node and md = md] by simp

text \<open>
  C4. Whatever the kind of the input node, the node that \<open>parseNode\<close> returns has the
  range of the input node: its \<open>from\<close> is \<open>node.from\<close> and its \<open>to\<close> is \<open>node.to\<close>.
\<close>

theorem parseNode_root_range:
  "parseNode ec node md = Inr ast \<Longrightarrow> ast_from ast = from' node \<and> ast_to ast = to node"
  by (simp add: parseNode_Inr_range)

theorem parseNode_root_range_witness:
  "parseNode no_citations (SyntaxNode ''Paragraph'' 2 7 [SyntaxNode ''ZknTag'' 2 6 []]) ''a #tag b''
     = Inr (Generic ''Paragraph'' 2 7
              [ZettelkastenTag ''ZknTag'' 2 6 (TextNode ''text'' 2 6 ''#tag'' None) None,
               Text (TextNode ''text'' 6 7 '' '' None)] None)
   \<and> ast_from (Generic ''Paragraph'' 2 7
              [ZettelkastenTag ''ZknTag'' 2 6 (TextNode ''text'' 2 6 ''#tag'' None) None,
               Text (TextNode ''text'' 6 7 '' '' None)] None :: unit ASTNode) = 2
   \<and> ast_to (Generic ''Paragraph'' 2 7
              [ZettelkastenTag ''ZknTag'' 2 6 (TextNode ''text'' 2 6 ''#tag'' None) None,
               Text (TextNode ''text'' 6 7 '' '' None)] None :: unit ASTNode) = 7"
proof -
  have run: "parseNode no_citations
      (SyntaxNode ''Paragraph'' 2 7 [SyntaxNode ''ZknTag'' 2 6 []]) ''a #tag b''
     = Inr (Generic ''Paragraph'' 2 7
              [ZettelkastenTag ''ZknTag'' 2 6 (TextNode ''text'' 2 6 ''#tag'' None) None,
               Text (TextNode ''text'' 6 7 '' '' None)] None)"
    by code_simp
  show ?thesis
    using run parseNode_root_range [OF run] by simp
qed

section \<open>Links and images\<close>

text \<open>
  C5. A \<open>Link\<close> or \<open>Image\<close> node without a \<open>URL\<close> child is converted, without an error, to
  a \<open>Generic\<close> node over the range of the node, whose only child is a \<open>Text\<close> leaf over the
  same range holding the source text of that range.
\<close>

theorem parseNode_link_without_URL:
  "name node = ''Link'' \<or> name node = ''Image'' \<Longrightarrow> getChild node ''URL'' = None \<Longrightarrow>
   parseNode ec node md =
     Inr (Generic (name node) (from' node) (to node)
            [Text (TextNode ''text'' (from' node) (to node)
                     (substring md (from' node) (to node)) None)]
            None)"
  by (auto simp: parseNode.simps genericTextNode_def)

theorem parseNode_link_without_URL_witness:
  "getChild (SyntaxNode ''Link'' 0 6
       [SyntaxNode ''LinkMark'' 0 1 [], SyntaxNode ''LinkMark'' 2 3 [],
        SyntaxNode ''LinkLabel'' 3 6 []]) ''URL'' = None
   \<and> parseNode no_citations
       (SyntaxNode ''Link'' 0 6
          [SyntaxNode ''LinkMark'' 0 1 [], SyntaxNode ''LinkMark'' 2 3 [],
           SyntaxNode ''LinkLabel'' 3 6 []]) ''[a][b]''
     = Inr (Generic ''Link'' 0 6 [Text (TextNode ''text'' 0 6 ''[a][b]'' None)] None)"
proof -
  have no_url: "getChild (SyntaxNode ''Link'' 0 6
       [SyntaxNode ''LinkMark'' 0 1 [], SyntaxNode ''LinkMark'' 2 3 [],
        SyntaxNode ''LinkLabel'' 3 6 []]) ''URL'' = None"
    by (simp add: getChild_def)
  show ?thesis
    using no_url
      parseNode_link_without_URL [OF _ no_url, of no_citations "''[a][b]''"]
    by (simp add: substring_def clamp_index_def)
qed

text \<open>
  What the branch does in general: with a \<open>URL\<close> child, \<open>alt\<close> is the text between the
  first two \<open>LinkMark\<close> children when there is no \<open>LinkLabel\<close> child and there are two
  marks, and the text of the \<open>URL\<close> child in every other case, also when a \<open>LinkLabel\<close>
  child is there.
\<close>

lemma parseNode_link_alt:
  assumes "name node = ''Link'' \<or> name node = ''Image''"
    and "getChild node ''URL'' = Some u"
  shows "parseNode ec node md =
     Inr (LinkOrImage (name node) (name node) (from' node) (to node)
            (TextNode ''text'' (from' u) (to u) (substring md (from' u) (to u)) None)
            (case getChild node ''LinkLabel'' of
               Some l \<Rightarrow> TextNode ''text'' (from' u) (to u) (substring md (from' u) (to u)) None
             | None \<Rightarrow>
                 (case getChildren node ''LinkMark'' of
                    m0 # m1 # _ \<Rightarrow>
                      TextNode ''text'' (to m0) (from' m1) (substring md (to m0) (from' m1)) None
                  | _ \<Rightarrow>
                      TextNode ''text'' (from' u) (to u) (substring md (from' u) (to u)) None))
            None None)"
proof -
  have two: "length ms \<ge> 2 \<longleftrightarrow> (\<exists>m0 m1 r. ms = m0 # m1 # r)" for ms :: "SyntaxNode list"
    by (cases ms; cases "tl ms") auto
  show ?thesis
    using assms
    by (elim disjE)
      (auto simp: parseNode.simps Let_def genericTextNode_def two
        split: option.split list.split)
qed

text \<open>
  C2, on the code. This \<open>Link\<close> node has a \<open>LinkLabel\<close> child over \<open>text\<close> and a \<open>URL\<close>
  child over \<open>url\<close>. The \<open>alt\<close> of the result is the text of the \<open>URL\<close> child, not that of
  the label: the label child is looked up, and compared with \<open>null\<close>, but its range is
  never read.
\<close>

theorem parseNode_link_label_alt:
  "parseNode no_citations
     (SyntaxNode ''Link'' 0 11
        [SyntaxNode ''LinkMark'' 0 1 [], SyntaxNode ''LinkLabel'' 1 5 [],
         SyntaxNode ''LinkMark'' 5 6 [], SyntaxNode ''LinkMark'' 6 7 [],
         SyntaxNode ''URL'' 7 10 [], SyntaxNode ''LinkMark'' 10 11 []])
     ''[text](url)'' =
   Inr (LinkOrImage ''Link'' ''Link'' 0 11 (TextNode ''text'' 7 10 ''url'' None)
          (TextNode ''text'' 7 10 ''url'' None) None None)"
  by code_simp

section \<open>Errors\<close>

lemma isl_bind:
  "isl (case x of Inl e \<Rightarrow> Inl e | Inr y \<Rightarrow> f y) \<longleftrightarrow> isl x \<or> isl (f (projr x))"
  by (cases x) simp_all

lemma parseChildrenLoop_raises:
  "isl (parseChildrenLoop ec node md chs idx st) \<longleftrightarrow>
     (\<exists>c \<in> set chs. name c \<noteq> ''PandocAttribute'' \<and> isl (parseNode ec c md))"
  by (induction chs arbitrary: idx st) (simp_all add: Let_def isl_bind)

lemma parseChildren_raises:
  "isl (parseChildren ec st node md) \<longleftrightarrow> (\<exists>c \<in> set (converted node). isl (parseNode ec c md))"
  by (auto simp: parseChildren.simps converted_def isl_bind case_prod_beta
      parseChildrenLoop_raises)

lemma parseListItems_raises:
  "isl (parseListItems ec isOrdered md its) \<longleftrightarrow>
     (\<exists>item \<in> set its. isl (parseChildren ec ([], None) item md))"
  by (induction its) (simp_all add: Let_def isl_bind case_prod_beta)

lemma parseTableCells_raises:
  "isl (parseTableCells ec md tcells) \<longleftrightarrow>
     (\<exists>cell \<in> set tcells. isl (parseChildren ec ([], None) cell md))"
  by (induction tcells) (simp_all add: isl_bind case_prod_beta)

lemma parseTableRows_raises:
  "isl (parseTableRows ec md trows) \<longleftrightarrow>
     (\<exists>row \<in> set trows. isl (parseTableCells ec md (getChildren row ''TableCell'')))"
  by (induction trows) (simp_all add: isl_bind)

lemma two_marks:
  "isl (case ms of start # end # rest \<Rightarrow> Inr (f start end) | _ \<Rightarrow> Inl e) \<longleftrightarrow> length ms < 2"
  by (cases ms; cases "tl ms") auto

lemma handed_on_direct:
  "name node \<in> set [''Image'', ''Link'', ''URL'', ''ATXHeading1'', ''ATXHeading2'',
          ''ATXHeading3'', ''ATXHeading4'', ''ATXHeading5'', ''ATXHeading6'', ''SetextHeading1'',
          ''SetextHeading2'', ''Citation'', ''Footnote'', ''FencedCode'', ''CodeBlock'',
          ''InlineCode'', ''ZknLink'', ''ZknTag''] \<Longrightarrow> handed_on node = []"
  by (auto simp: handed_on_def dedicated_kinds_def)

lemma parseNode_raises_direct:
  assumes "name node \<in> set [''Image'', ''Link'', ''URL'', ''ATXHeading1'', ''ATXHeading2'',
          ''ATXHeading3'', ''ATXHeading4'', ''ATXHeading5'', ''ATXHeading6'', ''SetextHeading1'',
          ''SetextHeading2'', ''Citation'', ''Footnote'', ''FencedCode'', ''CodeBlock'',
          ''InlineCode'', ''ZknLink'', ''ZknTag'']"
  shows "isl (parseNode ec node md) \<longleftrightarrow> raising node"
  using assms unfolding list.set insert_iff empty_iff
  by (elim disjE)
    (simp_all add: parseNode.simps Let_def raising_def two_marks split: option.split)

lemma parseNode_raises_step:
  "isl (parseNode ec node md) \<longleftrightarrow>
     raising node \<or> (\<exists>c \<in> set (handed_on node). isl (parseNode ec c md))"
proof (rule kind_cases [of node])
  assume other: "name node \<notin> set dedicated_kinds"
  then have "handed_on node = converted node" "\<not> raising node"
    by (auto simp: handed_on_def raising_def dedicated_kinds_def)
  then show ?thesis
    by (simp add: parseNode_default [OF other] parseChildren_raises isl_bind case_prod_beta)
next
  fix k assume k: "k \<in> set dedicated_kinds" "name node = k"
  have footnote_ref: ?thesis if "name node = ''FootnoteRef''"
    using that
    by (cases "getChild node ''FootnoteRefBody''")
      (simp_all add: parseNode.simps Let_def handed_on_def raising_def parseChildren_raises
        isl_bind case_prod_beta)
  have highlight: ?thesis if "name node = ''Highlight''"
    using that
    by (cases "getChild node ''HighlightContent''")
      (simp_all add: parseNode.simps handed_on_def raising_def parseChildren_raises
        isl_bind case_prod_beta)
  have list: ?thesis if "name node = ''OrderedList'' \<or> name node = ''BulletList''"
    using that
    by (elim disjE)
      (simp_all add: parseNode.simps handed_on_def raising_def parseChildren_raises
        parseListItems_raises isl_bind)
  have emphasis: ?thesis if "name node = ''Emphasis'' \<or> name node = ''StrongEmphasis''"
    using that
    by (elim disjE)
      (simp_all add: parseNode.simps handed_on_def raising_def parseChildren_raises
        isl_bind case_prod_beta)
  have table: ?thesis if "name node = ''Table''"
    using that
    by (simp add: parseNode.simps handed_on_def raising_def parseChildren_raises
        parseTableRows_raises parseTableCells_raises isl_bind bex_Un)
  from k show ?thesis
    using parseNode_raises_direct [of node ec md] handed_on_direct [of node]
      footnote_ref highlight list emphasis table
    unfolding dedicated_kinds_def list.set insert_iff empty_iff
    by (elim disjE) simp_all
qed

lemma parseNode_raises_iff:
  "isl (parseNode ec node md) \<longleftrightarrow> (\<exists>n \<in> set (reached node). raising n)"
proof (induction node rule: reached.induct)
  case (1 node)
  have "isl (parseNode ec node md) \<longleftrightarrow>
      raising node \<or> (\<exists>c \<in> set (handed_on node). \<exists>n \<in> set (reached c). raising n)"
    using 1 by (simp add: parseNode_raises_step [of ec node md])
  also have "\<dots> \<longleftrightarrow> (\<exists>n \<in> set (reached node). raising n)"
    by (subst (2) reached.simps) auto
  finally show ?case .
qed

text \<open>
  C1, on the code. By \<open>parseNode_raises_iff\<close> a conversion raises exactly when it reaches a
  \<open>ZknLink\<close> node without a \<open>ZknLinkContent\<close> child or an \<open>InlineCode\<close> node with fewer than
  two \<open>CodeMark\<close> children. The second way is not a \<open>throw\<close> of the source: the two marks
  are taken from the array of \<open>getChildren\<close> without a check, and \<open>start.to\<close> is read from
  \<open>undefined\<close>, a \<open>TypeError\<close>. Here it happens on a tree without any \<open>ZknLink\<close> node: the
  only node reached is the \<open>InlineCode\<close> node itself.
\<close>

theorem parseNode_InlineCode_raises:
  "parseNode no_citations (SyntaxNode ''InlineCode'' 0 2 []) ''``'' = Inl TypeError
   \<and> reached (SyntaxNode ''InlineCode'' 0 2 []) = [SyntaxNode ''InlineCode'' 0 2 []]"
  by code_simp

section \<open>Headings\<close>

lemma heading_examples:
  "parseNode no_citations (SyntaxNode ''ATXHeading1'' 0 3 [SyntaxNode ''HeaderMark'' 0 1 []])
     ''# a'' = Inr (Heading ''ATXHeading1'' 0 3 (TextNode ''text'' 1 3 ''a'' None) 1 None)"
  "parseNode no_citations (SyntaxNode ''ATXHeading2'' 0 4 [SyntaxNode ''HeaderMark'' 0 2 []])
     ''## a'' = Inr (Heading ''ATXHeading2'' 0 4 (TextNode ''text'' 2 4 ''a'' None) 2 None)"
  "parseNode no_citations (SyntaxNode ''ATXHeading3'' 0 5 [SyntaxNode ''HeaderMark'' 0 3 []])
     ''### a'' = Inr (Heading ''ATXHeading3'' 0 5 (TextNode ''text'' 3 5 ''a'' None) 3 None)"
  "parseNode no_citations (SyntaxNode ''ATXHeading4'' 0 6 [SyntaxNode ''HeaderMark'' 0 4 []])
     ''#### a'' = Inr (Heading ''ATXHeading4'' 0 6 (TextNode ''text'' 4 6 ''a'' None) 4 None)"
  "parseNode no_citations (SyntaxNode ''ATXHeading5'' 0 7 [SyntaxNode ''HeaderMark'' 0 5 []])
     ''##### a'' = Inr (Heading ''ATXHeading5'' 0 7 (TextNode ''text'' 5 7 ''a'' None) 5 None)"
  "parseNode no_citations (SyntaxNode ''ATXHeading6'' 0 8 [SyntaxNode ''HeaderMark'' 0 6 []])
     ''###### a'' = Inr (Heading ''ATXHeading6'' 0 8 (TextNode ''text'' 6 8 ''a'' None) 6 None)"
  "parseNode no_citations (SyntaxNode ''SetextHeading2'' 0 5 [SyntaxNode ''HeaderMark'' 2 5 []])
     (''a'' @ [CHR 0x0A] @ ''---'')
     = Inr (Heading ''SetextHeading2'' 0 5 (TextNode ''text'' 5 5 ''a'' None) 2 None)"
  "parseNode no_citations (SyntaxNode ''SetextHeading1'' 0 5 [SyntaxNode ''HeaderMark'' 2 5 []])
     (''a'' @ [CHR 0x0A] @ ''==='')
     = Inr (Heading ''SetextHeading1'' 0 5 (TextNode ''text'' 5 5 ''a'' None) 1 None)"
  by code_simp+

lemma parseNode_ATXHeading:
  assumes "name node \<in> set [''ATXHeading1'', ''ATXHeading2'', ''ATXHeading3'',
                              ''ATXHeading4'', ''ATXHeading5'', ''ATXHeading6'']"
  shows "parseNode ec node md =
       (let mark = getChild node ''HeaderMark'';
            level' = (case mark of Some m \<Rightarrow> to m - from' m | None \<Rightarrow> 0);
            start = (case mark of Some m \<Rightarrow> to m | None \<Rightarrow> from' node)
        in Inr (Heading (name node) (from' node) (to node)
                  (genericTextNode start (to node) (trim (substring md start (to node))))
                  level' None))"
  using assms unfolding list.set insert_iff empty_iff
  by (elim disjE) (simp_all add: parseNode.simps)

lemma parseNode_SetextHeading:
  assumes "name node = ''SetextHeading1'' \<or> name node = ''SetextHeading2''"
  shows "parseNode ec node md =
       (let mark = getChild node ''HeaderMark'';
            level' = (case mark of
                       Some m \<Rightarrow>
                         if includes_unit (substring md (from' m) (to m)) CHR ''-''
                         then 2 else 1
                     | None \<Rightarrow> 1)
        in Inr (Heading (name node) (from' node) (to node)
                  (genericTextNode (case mark of Some m \<Rightarrow> to m | None \<Rightarrow> from' node) (to node)
                     (trim (substring md (from' node)
                              (case mark of Some m \<Rightarrow> from' m | None \<Rightarrow> to node))))
                  level' None))"
  using assms by (elim disjE) (simp_all add: parseNode.simps)

text \<open>
  C7. An ATX heading node with a \<open>HeaderMark\<close> child becomes a \<open>Heading\<close> whose level is the
  length \<open>mark.to - mark.from\<close> of that child, so that \<open># a\<close> to \<open>###### a\<close> have the levels
  1 to 6. A Setext heading node becomes a \<open>Heading\<close> of level 2 when it has a \<open>HeaderMark\<close>
  child whose source text contains a dash, and of level 1 otherwise, so that an underline
  \<open>---\<close> gives level 2 and an underline \<open>===\<close> level 1.
\<close>

theorem heading_level:
  "(\<forall>ec node md m.
      name node \<in> set [''ATXHeading1'', ''ATXHeading2'', ''ATXHeading3'',
                        ''ATXHeading4'', ''ATXHeading5'', ''ATXHeading6''] \<longrightarrow>
      getChild node ''HeaderMark'' = Some m \<longrightarrow>
      (\<exists>v. parseNode ec node md =
             Inr (Heading (name node) (from' node) (to node) v (to m - from' m) None)))
   \<and> (\<forall>ec node md.
      name node = ''SetextHeading1'' \<or> name node = ''SetextHeading2'' \<longrightarrow>
      (\<exists>v. parseNode ec node md =
             Inr (Heading (name node) (from' node) (to node) v
                    (if \<exists>m. getChild node ''HeaderMark'' = Some m
                             \<and> CHR ''-'' \<in> set (substring md (from' m) (to m))
                     then 2 else 1) None)))
   \<and> (parseNode no_citations (SyntaxNode ''ATXHeading1'' 0 3 [SyntaxNode ''HeaderMark'' 0 1 []])
         ''# a'' = Inr (Heading ''ATXHeading1'' 0 3 (TextNode ''text'' 1 3 ''a'' None) 1 None))
   \<and> (parseNode no_citations (SyntaxNode ''ATXHeading2'' 0 4 [SyntaxNode ''HeaderMark'' 0 2 []])
         ''## a'' = Inr (Heading ''ATXHeading2'' 0 4 (TextNode ''text'' 2 4 ''a'' None) 2 None))
   \<and> (parseNode no_citations (SyntaxNode ''ATXHeading3'' 0 5 [SyntaxNode ''HeaderMark'' 0 3 []])
         ''### a'' = Inr (Heading ''ATXHeading3'' 0 5 (TextNode ''text'' 3 5 ''a'' None) 3 None))
   \<and> (parseNode no_citations (SyntaxNode ''ATXHeading4'' 0 6 [SyntaxNode ''HeaderMark'' 0 4 []])
         ''#### a'' = Inr (Heading ''ATXHeading4'' 0 6 (TextNode ''text'' 4 6 ''a'' None) 4 None))
   \<and> (parseNode no_citations (SyntaxNode ''ATXHeading5'' 0 7 [SyntaxNode ''HeaderMark'' 0 5 []])
         ''##### a'' = Inr (Heading ''ATXHeading5'' 0 7 (TextNode ''text'' 5 7 ''a'' None) 5 None))
   \<and> (parseNode no_citations (SyntaxNode ''ATXHeading6'' 0 8 [SyntaxNode ''HeaderMark'' 0 6 []])
         ''###### a'' = Inr (Heading ''ATXHeading6'' 0 8 (TextNode ''text'' 6 8 ''a'' None) 6 None))
   \<and> (parseNode no_citations (SyntaxNode ''SetextHeading2'' 0 5 [SyntaxNode ''HeaderMark'' 2 5 []])
         (''a'' @ [CHR 0x0A] @ ''---'')
         = Inr (Heading ''SetextHeading2'' 0 5 (TextNode ''text'' 5 5 ''a'' None) 2 None))
   \<and> (parseNode no_citations (SyntaxNode ''SetextHeading1'' 0 5 [SyntaxNode ''HeaderMark'' 2 5 []])
         (''a'' @ [CHR 0x0A] @ ''==='')
         = Inr (Heading ''SetextHeading1'' 0 5 (TextNode ''text'' 5 5 ''a'' None) 1 None))"
proof (intro conjI allI impI)
  fix ec :: "string \<Rightarrow> 'a list" and node md m
  assume "name node \<in> set [''ATXHeading1'', ''ATXHeading2'', ''ATXHeading3'',
                        ''ATXHeading4'', ''ATXHeading5'', ''ATXHeading6'']"
    and "getChild node ''HeaderMark'' = Some m"
  then show "\<exists>v. parseNode ec node md =
             Inr (Heading (name node) (from' node) (to node) v (to m - from' m) None)"
    by (simp add: parseNode_ATXHeading Let_def del: list.set)
next
  fix ec :: "string \<Rightarrow> 'b list" and node md
  assume "name node = ''SetextHeading1'' \<or> name node = ''SetextHeading2''"
  then show "\<exists>v. parseNode ec node md =
             Inr (Heading (name node) (from' node) (to node) v
                    (if \<exists>m. getChild node ''HeaderMark'' = Some m
                             \<and> CHR ''-'' \<in> set (substring md (from' m) (to m))
                     then 2 else 1) None)"
    by (cases "getChild node ''HeaderMark''")
      (simp_all add: parseNode_SetextHeading Let_def includes_unit_def)
qed (rule heading_examples)+

theorem heading_level_witness:
  "name (SyntaxNode ''ATXHeading2'' 0 4 [SyntaxNode ''HeaderMark'' 0 2 []])
        \<in> set [''ATXHeading1'', ''ATXHeading2'', ''ATXHeading3'',
                 ''ATXHeading4'', ''ATXHeading5'', ''ATXHeading6'']
   \<and> getChild (SyntaxNode ''ATXHeading2'' 0 4 [SyntaxNode ''HeaderMark'' 0 2 []]) ''HeaderMark''
        = Some (SyntaxNode ''HeaderMark'' 0 2 [])
   \<and> (\<exists>v. parseNode no_citations
              (SyntaxNode ''ATXHeading2'' 0 4 [SyntaxNode ''HeaderMark'' 0 2 []]) ''## a''
            = Inr (Heading ''ATXHeading2'' 0 4 v 2 None))
   \<and> (\<exists>v. parseNode no_citations
              (SyntaxNode ''SetextHeading2'' 0 5 [SyntaxNode ''HeaderMark'' 2 5 []])
              (''a'' @ [CHR 0x0A] @ ''---'')
            = Inr (Heading ''SetextHeading2'' 0 5 v 2 None))"
proof -
  have kind: "name (SyntaxNode ''ATXHeading2'' 0 4 [SyntaxNode ''HeaderMark'' 0 2 []])
        \<in> set [''ATXHeading1'', ''ATXHeading2'', ''ATXHeading3'',
                 ''ATXHeading4'', ''ATXHeading5'', ''ATXHeading6'']"
    by simp
  have mark: "getChild (SyntaxNode ''ATXHeading2'' 0 4 [SyntaxNode ''HeaderMark'' 0 2 []])
        ''HeaderMark'' = Some (SyntaxNode ''HeaderMark'' 0 2 [])"
    by (simp add: getChild_def)
  have setext: "name (SyntaxNode ''SetextHeading2'' 0 5 [SyntaxNode ''HeaderMark'' 2 5 []])
        = ''SetextHeading1''
      \<or> name (SyntaxNode ''SetextHeading2'' 0 5 [SyntaxNode ''HeaderMark'' 2 5 []])
        = ''SetextHeading2''"
    by simp
  have dash: "\<exists>m. getChild (SyntaxNode ''SetextHeading2'' 0 5 [SyntaxNode ''HeaderMark'' 2 5 []])
          ''HeaderMark'' = Some m
        \<and> CHR ''-'' \<in> set (substring (''a'' @ [CHR 0x0A] @ ''---'') (from' m) (to m))"
    by (simp add: getChild_def substring_def clamp_index_def)
  from heading_level [THEN conjunct1, rule_format, OF kind mark, of no_citations "''## a''"]
  have atx: "\<exists>v. parseNode no_citations
              (SyntaxNode ''ATXHeading2'' 0 4 [SyntaxNode ''HeaderMark'' 0 2 []]) ''## a''
            = Inr (Heading ''ATXHeading2'' 0 4 v 2 None)"
    by simp
  from heading_level [THEN conjunct2, THEN conjunct1, rule_format, OF setext,
      of no_citations "''a'' @ [CHR 0x0A] @ ''---''"] dash
  have "\<exists>v. parseNode no_citations
              (SyntaxNode ''SetextHeading2'' 0 5 [SyntaxNode ''HeaderMark'' 2 5 []])
              (''a'' @ [CHR 0x0A] @ ''---'')
            = Inr (Heading ''SetextHeading2'' 0 5 v 2 None)"
    by (simp only: if_True SyntaxNode.sel)
  with kind mark atx show ?thesis by blast
qed

section \<open>Code blocks\<close>

lemma parseNode_code_block:
  "name node = ''FencedCode'' \<or> name node = ''CodeBlock'' \<Longrightarrow>
   parseNode ec node md =
       (let mark = getChild node ''CodeMark'';
            info_node = (case mark of
                      Some m \<Rightarrow>
                        if substring md (from' m) (to m) = ''$$'' then Some m
                        else getChild node ''CodeInfo''
                    | None \<Rightarrow> getChild node ''CodeInfo'');
            source_node = getChild node ''CodeText'';
            isFrontmatter = (getChild node ''YAMLFrontmatterStart'' \<noteq> None);
            info_text = (case info_node of
                           Some i \<Rightarrow> substring md (from' i) (to i) | None \<Rightarrow> []);
            source_text = (case source_node of
                             Some s \<Rightarrow> substring md (from' s) (to s) | None \<Rightarrow> [])
        in if isFrontmatter
           then Inr (YAMLFrontmatter ''YAMLFrontmatter'' (from' node) (to node)
                       info_text source_text None)
           else Inr (FencedCode ''FencedCode'' (from' node) (to node)
                       info_text source_text None))"
  by (erule disjE) (simp_all add: parseNode.simps)

text \<open>
  C8. A \<open>FencedCode\<close> or \<open>CodeBlock\<close> node is converted to a \<open>FencedCode\<close> or
  \<open>YAMLFrontmatter\<close> node. When the text of its first \<open>CodeMark\<close> child is \<open>$$\<close>, the \<open>info\<close>
  of the result is the string \<open>$$\<close>; otherwise it is the source text of the \<open>CodeInfo\<close> child,
  and the empty string when there is no such child.
\<close>

theorem code_block_info:
  assumes "name node = ''FencedCode'' \<or> name node = ''CodeBlock''"
  shows "\<exists>r. parseNode ec node md = Inr r
     \<and> (is_FencedCode r \<or> is_YAMLFrontmatter r)
     \<and> info r =
         (let codeInfo = (case getChild node ''CodeInfo'' of
                            Some i \<Rightarrow> substring md (from' i) (to i)
                          | None \<Rightarrow> [])
          in case getChild node ''CodeMark'' of
               Some m \<Rightarrow> if substring md (from' m) (to m) = ''$$'' then ''$$'' else codeInfo
             | None \<Rightarrow> codeInfo)"
proof (cases "getChild node ''CodeMark''")
  case None
  then show ?thesis
    by (simp add: parseNode_code_block [OF assms] Let_def)
next
  case (Some m)
  show ?thesis
  proof (cases "substring md (from' m) (to m) = ''$$''")
    case True
    with Some show ?thesis
      by (simp add: parseNode_code_block [OF assms] Let_def)
  next
    case False
    with Some show ?thesis
      by (simp add: parseNode_code_block [OF assms] Let_def)
  qed
qed

text \<open>The examples of the claim: a math fence, a \<open>python\<close> fence, a fence without info.\<close>

theorem code_block_info_witness:
  "(\<exists>r. parseNode no_citations
          (SyntaxNode ''FencedCode'' 0 8
             [SyntaxNode ''CodeMark'' 0 2 [], SyntaxNode ''CodeText'' 3 5 [],
              SyntaxNode ''CodeMark'' 6 8 []])
          (''$$'' @ [CHR 0x0A] @ ''ab'' @ [CHR 0x0A] @ ''$$'') = Inr r
        \<and> (is_FencedCode r \<or> is_YAMLFrontmatter r) \<and> info r = ''$$'')
   \<and> (\<exists>r. parseNode no_citations
          (SyntaxNode ''FencedCode'' 0 16
             [SyntaxNode ''CodeMark'' 0 3 [], SyntaxNode ''CodeInfo'' 3 9 [],
              SyntaxNode ''CodeText'' 10 12 [], SyntaxNode ''CodeMark'' 13 16 []])
          (''```python'' @ [CHR 0x0A] @ ''ab'' @ [CHR 0x0A] @ ''```'') = Inr r
        \<and> (is_FencedCode r \<or> is_YAMLFrontmatter r) \<and> info r = ''python'')
   \<and> (\<exists>r. parseNode no_citations
          (SyntaxNode ''CodeBlock'' 0 6 [SyntaxNode ''CodeText'' 4 6 []]) ''    ab'' = Inr r
        \<and> (is_FencedCode r \<or> is_YAMLFrontmatter r) \<and> info r = [])"
proof -
  have math: "name (SyntaxNode ''FencedCode'' 0 8
             [SyntaxNode ''CodeMark'' 0 2 [], SyntaxNode ''CodeText'' 3 5 [],
              SyntaxNode ''CodeMark'' 6 8 []]) = ''FencedCode''
     \<or> name (SyntaxNode ''FencedCode'' 0 8
             [SyntaxNode ''CodeMark'' 0 2 [], SyntaxNode ''CodeText'' 3 5 [],
              SyntaxNode ''CodeMark'' 6 8 []]) = ''CodeBlock''"
    by simp
  have python: "name (SyntaxNode ''FencedCode'' 0 16
             [SyntaxNode ''CodeMark'' 0 3 [], SyntaxNode ''CodeInfo'' 3 9 [],
              SyntaxNode ''CodeText'' 10 12 [], SyntaxNode ''CodeMark'' 13 16 []]) = ''FencedCode''
     \<or> name (SyntaxNode ''FencedCode'' 0 16
             [SyntaxNode ''CodeMark'' 0 3 [], SyntaxNode ''CodeInfo'' 3 9 [],
              SyntaxNode ''CodeText'' 10 12 [], SyntaxNode ''CodeMark'' 13 16 []]) = ''CodeBlock''"
    by simp
  have indented: "name (SyntaxNode ''CodeBlock'' 0 6 [SyntaxNode ''CodeText'' 4 6 []])
       = ''FencedCode''
     \<or> name (SyntaxNode ''CodeBlock'' 0 6 [SyntaxNode ''CodeText'' 4 6 []]) = ''CodeBlock''"
    by simp
  show ?thesis
    using code_block_info [OF math, of no_citations
        "''$$'' @ [CHR 0x0A] @ ''ab'' @ [CHR 0x0A] @ ''$$''"]
      code_block_info [OF python, of no_citations
        "''```python'' @ [CHR 0x0A] @ ''ab'' @ [CHR 0x0A] @ ''```''"]
      code_block_info [OF indented, of no_citations "''    ab''"]
    by (simp add: getChild_def substring_def clamp_index_def)
qed

section \<open>Lists\<close>

lemma parseListItems_checked:
  "parseListItems ec isOrdered md its = Inr lis \<Longrightarrow>
   list_all is_ListItem lis \<and>
   map checked lis =
     map (\<lambda>item. case getChild item ''Task'' of
                    None \<Rightarrow> None
                  | Some task \<Rightarrow>
                      (case getChild task ''TaskMarker'' of
                         None \<Rightarrow> None
                       | Some tm \<Rightarrow> Some (substring md (from' tm) (to tm) = ''[x]''))) its"
proof (induction its arbitrary: lis)
  case Nil
  then show ?case by simp
next
  case (Cons item rest)
  from Cons.prems obtain mk cs as lis' where
    lis: "lis = ListItem ''ListItem'' (from' item) (to item)
       (case getChild item ''Task'' of
          None \<Rightarrow> None
        | Some task \<Rightarrow>
            (case getChild task ''TaskMarker'' of
               None \<Rightarrow> None
             | Some tm \<Rightarrow> Some (substring md (from' tm) (to tm) = ''[x]'')))
       mk cs as # lis'"
    and rest: "parseListItems ec isOrdered md rest = Inr lis'"
    by (auto simp: Let_def split: sum.splits prod.splits option.splits)
  from Cons.IH [OF rest] show ?case
    unfolding lis by simp
qed

lemma parseNode_list:
  assumes "name node = ''OrderedList'' \<or> name node = ''BulletList''"
  shows "parseNode ec node md =
       (case parseListItems ec (name node = ''OrderedList'') md
               (getChildren node ''ListItem'') of
          Inl e \<Rightarrow> Inl e
        | Inr its \<Rightarrow>
            Inr (List (name node) (from' node) (to node) (name node = ''OrderedList'') its None))"
  using assms by (elim disjE) (simp_all add: parseNode.simps)

lemma list_examples:
  "parseNode no_citations
     (SyntaxNode ''BulletList'' 0 10
        [SyntaxNode ''ListItem'' 0 10
           [SyntaxNode ''ListMark'' 0 1 [],
            SyntaxNode ''Task'' 2 10 [SyntaxNode ''TaskMarker'' 2 5 []]]])
     ''- [x] done''
   = Inr (List ''BulletList'' 0 10 False
            [ListItem ''ListItem'' 0 10 (Some True) (Marker (Some ''-'') 0 1)
               [Generic ''ListMark'' 0 1 [] None,
                Generic ''Task'' 2 10
                  [Generic ''TaskMarker'' 2 5 [Text (TextNode ''text'' 2 5 ''[x]'' None)] None,
                   Text (TextNode ''text'' 5 10 '' done'' None)] None]
               None]
            None)"
  "parseNode no_citations
     (SyntaxNode ''BulletList'' 0 10
        [SyntaxNode ''ListItem'' 0 10
           [SyntaxNode ''ListMark'' 0 1 [],
            SyntaxNode ''Task'' 2 10 [SyntaxNode ''TaskMarker'' 2 5 []]]])
     ''- [ ] todo''
   = Inr (List ''BulletList'' 0 10 False
            [ListItem ''ListItem'' 0 10 (Some False) (Marker (Some ''-'') 0 1)
               [Generic ''ListMark'' 0 1 [] None,
                Generic ''Task'' 2 10
                  [Generic ''TaskMarker'' 2 5 [Text (TextNode ''text'' 2 5 ''[ ]'' None)] None,
                   Text (TextNode ''text'' 5 10 '' todo'' None)] None]
               None]
            None)"
  "parseNode no_citations
     (SyntaxNode ''BulletList'' 0 7
        [SyntaxNode ''ListItem'' 0 7
           [SyntaxNode ''ListMark'' 0 1 [], SyntaxNode ''Paragraph'' 2 7 []]])
     ''- plain''
   = Inr (List ''BulletList'' 0 7 False
            [ListItem ''ListItem'' 0 7 None (Marker (Some ''-'') 0 1)
               [Generic ''ListMark'' 0 1 [] None,
                Generic ''Paragraph'' 2 7 [Text (TextNode ''text'' 2 7 ''plain'' None)] None]
               None]
            None)"
  by code_simp+

text \<open>
  C9. The items of the \<open>List\<close> made from an \<open>OrderedList\<close> or \<open>BulletList\<close> node are
  \<open>ListItem\<close> nodes, one for each \<open>ListItem\<close> child in order. The item made from a child
  whose \<open>Task\<close> child has a \<open>TaskMarker\<close> child has a \<open>checked\<close> field, which is true exactly
  when the source text of the marker is \<open>[x]\<close>; the item made from a child without a \<open>Task\<close>
  child, or whose \<open>Task\<close> child has no \<open>TaskMarker\<close>, has no \<open>checked\<close> field. (\<open>getChild\<close>
  is the first child of the kind, as in Lezer.)
\<close>

theorem list_item_checked:
  assumes "name node = ''OrderedList'' \<or> name node = ''BulletList''"
    and "parseNode ec node md = Inr ast"
  shows "is_List ast \<and> list_all is_ListItem (items ast) \<and>
     map checked (items ast) =
       map (\<lambda>item. case getChild item ''Task'' of
                      None \<Rightarrow> None
                    | Some task \<Rightarrow>
                        (case getChild task ''TaskMarker'' of
                           None \<Rightarrow> None
                         | Some tm \<Rightarrow> Some (substring md (from' tm) (to tm) = ''[x]'')))
         (getChildren node ''ListItem'')"
proof -
  from assms(2) obtain lis where
    ast: "ast = List (name node) (from' node) (to node) (name node = ''OrderedList'') lis None"
    and lis: "parseListItems ec (name node = ''OrderedList'') md (getChildren node ''ListItem'')
                = Inr lis"
    unfolding parseNode_list [OF assms(1)] by (auto split: sum.splits)
  from parseListItems_checked [OF lis] show ?thesis
    unfolding ast by simp
qed

theorem list_item_checked_witness:
  "(\<exists>ast. parseNode no_citations
       (SyntaxNode ''BulletList'' 0 10
          [SyntaxNode ''ListItem'' 0 10
             [SyntaxNode ''ListMark'' 0 1 [],
              SyntaxNode ''Task'' 2 10 [SyntaxNode ''TaskMarker'' 2 5 []]]])
       ''- [x] done'' = Inr ast
      \<and> map checked (items ast) = [Some True])
   \<and> (\<exists>ast. parseNode no_citations
       (SyntaxNode ''BulletList'' 0 10
          [SyntaxNode ''ListItem'' 0 10
             [SyntaxNode ''ListMark'' 0 1 [],
              SyntaxNode ''Task'' 2 10 [SyntaxNode ''TaskMarker'' 2 5 []]]])
       ''- [ ] todo'' = Inr ast
      \<and> map checked (items ast) = [Some False])
   \<and> (\<exists>ast. parseNode no_citations
       (SyntaxNode ''BulletList'' 0 7
          [SyntaxNode ''ListItem'' 0 7
             [SyntaxNode ''ListMark'' 0 1 [], SyntaxNode ''Paragraph'' 2 7 []]])
       ''- plain'' = Inr ast
      \<and> map checked (items ast) = [None])"
proof -
  have bullet: "name (SyntaxNode ''BulletList'' f t cs) = ''OrderedList''
      \<or> name (SyntaxNode ''BulletList'' f t cs) = ''BulletList''" for f t cs
    by simp
  have "map checked (items ast) = [Some True]"
    if "parseNode no_citations
       (SyntaxNode ''BulletList'' 0 10
          [SyntaxNode ''ListItem'' 0 10
             [SyntaxNode ''ListMark'' 0 1 [],
              SyntaxNode ''Task'' 2 10 [SyntaxNode ''TaskMarker'' 2 5 []]]])
       ''- [x] done'' = Inr ast" for ast
    using list_item_checked [OF bullet that]
    by (simp add: getChild_def getChildren_def substring_def clamp_index_def)
  moreover have "map checked (items ast) = [Some False]"
    if "parseNode no_citations
       (SyntaxNode ''BulletList'' 0 10
          [SyntaxNode ''ListItem'' 0 10
             [SyntaxNode ''ListMark'' 0 1 [],
              SyntaxNode ''Task'' 2 10 [SyntaxNode ''TaskMarker'' 2 5 []]]])
       ''- [ ] todo'' = Inr ast" for ast
    using list_item_checked [OF bullet that]
    by (simp add: getChild_def getChildren_def substring_def clamp_index_def)
  moreover have "map checked (items ast) = [None]"
    if "parseNode no_citations
       (SyntaxNode ''BulletList'' 0 7
          [SyntaxNode ''ListItem'' 0 7
             [SyntaxNode ''ListMark'' 0 1 [], SyntaxNode ''Paragraph'' 2 7 []]])
       ''- plain'' = Inr ast" for ast
    using list_item_checked [OF bullet that]
    by (simp add: getChild_def getChildren_def substring_def clamp_index_def)
  ultimately show ?thesis
    using list_examples by blast
qed

section \<open>Pandoc attributes\<close>




















section \<open>The children tile the range of their node\<close>

lemma tiles_append:
  "tiles a m xs \<Longrightarrow> tiles m b ys \<Longrightarrow> tiles a b (xs @ ys)"
  by (induction a m xs rule: tiles.induct) auto

lemma ranges_simps [simp]:
  "ranges [] = []"
  "ranges (a # cs) = (ast_from a, ast_to a) # ranges cs"
  "ranges (cs @ ds) = ranges cs @ ranges ds"
  by (simp_all add: ranges_def)

lemma ast_range_Text [simp]:
  "ast_from (Text t) = TextNode.from' t"
  "ast_to (Text t) = TextNode.to t"
  by (simp_all add: ast_from_def ast_to_def)

lemma gap_leaf_simps [simp]:
  "is_Text (gap_leaf md r)"
  "ast_from (gap_leaf md r) = fst r"
  "ast_to (gap_leaf md r) = snd r"
  by (simp_all add: gap_leaf_def)

text \<open>
  The \<open>while\<close> loop: what it appends to the children. \<open>segs\<close> lists the spans it walks
  over, in order: the gaps and the sub-nodes, a \<open>PandocAttribute\<close> sub-node flagged.
\<close>

lemma parseChildrenLoop_children:
  assumes kind: "name node \<notin> set EMPTY_NODES"
  shows "parseChildrenLoop ec node md chs idx (acc, at) = Inr ((cs, as), idx') \<Longrightarrow>
    \<exists>new. cs = acc @ new
      \<and> map Inr (filter (\<lambda>a. \<not> is_Text a) new) =
          map (\<lambda>c. parseNode ec c md) (filter (\<lambda>c. name c \<noteq> ''PandocAttribute'') chs)
      \<and> (\<forall>t. filter is_Text new @ map (gap_leaf md) (gaps idx' t []) =
               map (gap_leaf md) (gaps idx t chs))
      \<and> (\<forall>b. ordered_within idx b chs \<longrightarrow> idx' \<le> b \<and>
            (\<exists>segs. tiles idx idx' (map snd segs)
               \<and> map snd (filter (\<lambda>s. \<not> fst s) segs) = ranges new
               \<and> map snd (filter fst segs) =
                   map (\<lambda>c. (from' c, to c)) (filter (\<lambda>c. name c = ''PandocAttribute'') chs)))"
proof (induction chs arbitrary: idx acc at)
  case Nil
  then have "cs = acc" "idx' = idx" by simp_all
  then show ?case
    by (intro exI [of _ "[]"]) (auto intro: exI [of _ "[]"])
next
  case (Cons c rest)
  let ?g = "if from' c > idx then [(idx, from' c)] else []"
  let ?gap = "map (gap_leaf md) ?g :: 'a ASTNode list"
  have acc: "(if from' c > idx \<and> name node \<notin> set EMPTY_NODES
              then acc @ [Text (genericTextNode idx (from' c) (substring md idx (from' c)))]
              else acc) = acc @ ?gap"
    using kind by (simp add: gap_leaf_def genericTextNode_def)
  show ?case
  proof (cases "name c = ''PandocAttribute''")
    case True
    with Cons.prems acc
    have "parseChildrenLoop ec node md rest (to c)
            (acc @ ?gap, Some (parseAttributeNode at c md)) = Inr ((cs, as), idx')"
      by (simp add: Let_def cong: if_cong)
    from Cons.IH [OF this] obtain new where
      new: "cs = (acc @ ?gap) @ new"
        "map Inr (filter (\<lambda>a. \<not> is_Text a) new) =
          map (\<lambda>c. parseNode ec c md) (filter (\<lambda>c. name c \<noteq> ''PandocAttribute'') rest)"
        "\<forall>t. filter is_Text new @ map (gap_leaf md) (gaps idx' t []) =
               map (gap_leaf md) (gaps (to c) t rest)"
        "\<forall>b. ordered_within (to c) b rest \<longrightarrow> idx' \<le> b \<and>
            (\<exists>segs. tiles (to c) idx' (map snd segs)
               \<and> map snd (filter (\<lambda>s. \<not> fst s) segs) = ranges new
               \<and> map snd (filter fst segs) =
                   map (\<lambda>c. (from' c, to c)) (filter (\<lambda>c. name c = ''PandocAttribute'') rest))"
      by blast
    show ?thesis
    proof (intro exI [of _ "?gap @ new"] conjI allI impI)
      show "cs = acc @ ?gap @ new"
        using new(1) by simp
      show "map Inr (filter (\<lambda>a. \<not> is_Text a) (?gap @ new)) =
          map (\<lambda>c. parseNode ec c md) (filter (\<lambda>c. name c \<noteq> ''PandocAttribute'') (c # rest))"
        using new(2) True by simp
      show "filter is_Text (?gap @ new) @ map (gap_leaf md) (gaps idx' t []) =
               map (gap_leaf md) (gaps idx t (c # rest))" for t
        using new(3) by simp
    next
      fix b assume ord: "ordered_within idx b (c # rest)"
      with new(4) obtain segs where
        segs: "idx' \<le> b" "tiles (to c) idx' (map snd segs)"
          "map snd (filter (\<lambda>s. \<not> fst s) segs) = ranges new"
          "map snd (filter fst segs) =
             map (\<lambda>c. (from' c, to c)) (filter (\<lambda>c. name c = ''PandocAttribute'') rest)"
        by auto
      show "idx' \<le> b" by (rule segs(1))
      show "\<exists>segs. tiles idx idx' (map snd segs)
               \<and> map snd (filter (\<lambda>s. \<not> fst s) segs) = ranges (?gap @ new)
               \<and> map snd (filter fst segs) =
                   map (\<lambda>c. (from' c, to c))
                     (filter (\<lambda>c. name c = ''PandocAttribute'') (c # rest))"
        using segs(2-4) ord True
        by (intro exI [of _ "map (Pair False) ?g @ (True, from' c, to c) # segs"]) auto
    qed
  next
    case False
    with Cons.prems acc obtain child where
      child: "parseNode ec c md = Inr child"
      and loop: "parseChildrenLoop ec node md rest (to c) ((acc @ ?gap) @ [child], at)
                   = Inr ((cs, as), idx')"
      by (auto simp: Let_def cong: if_cong split: sum.splits)
    have range: "ast_from child = from' c" "ast_to child = to c"
      using parseNode_Inr_range [OF child] by simp_all
    have not_text: "\<not> is_Text child"
      using parseNode_not_Text [OF child] .
    from Cons.IH [OF loop] obtain new where
      new: "cs = ((acc @ ?gap) @ [child]) @ new"
        "map Inr (filter (\<lambda>a. \<not> is_Text a) new) =
          map (\<lambda>c. parseNode ec c md) (filter (\<lambda>c. name c \<noteq> ''PandocAttribute'') rest)"
        "\<forall>t. filter is_Text new @ map (gap_leaf md) (gaps idx' t []) =
               map (gap_leaf md) (gaps (to c) t rest)"
        "\<forall>b. ordered_within (to c) b rest \<longrightarrow> idx' \<le> b \<and>
            (\<exists>segs. tiles (to c) idx' (map snd segs)
               \<and> map snd (filter (\<lambda>s. \<not> fst s) segs) = ranges new
               \<and> map snd (filter fst segs) =
                   map (\<lambda>c. (from' c, to c)) (filter (\<lambda>c. name c = ''PandocAttribute'') rest))"
      by blast
    show ?thesis
    proof (intro exI [of _ "?gap @ child # new"] conjI allI impI)
      show "cs = acc @ ?gap @ child # new"
        using new(1) by simp
      show "map Inr (filter (\<lambda>a. \<not> is_Text a) (?gap @ child # new)) =
          map (\<lambda>c. parseNode ec c md) (filter (\<lambda>c. name c \<noteq> ''PandocAttribute'') (c # rest))"
        using new(2) False not_text child by simp
      show "filter is_Text (?gap @ child # new) @ map (gap_leaf md) (gaps idx' t []) =
               map (gap_leaf md) (gaps idx t (c # rest))" for t
        using new(3) not_text by simp
    next
      fix b assume ord: "ordered_within idx b (c # rest)"
      with new(4) obtain segs where
        segs: "idx' \<le> b" "tiles (to c) idx' (map snd segs)"
          "map snd (filter (\<lambda>s. \<not> fst s) segs) = ranges new"
          "map snd (filter fst segs) =
             map (\<lambda>c. (from' c, to c)) (filter (\<lambda>c. name c = ''PandocAttribute'') rest)"
        by auto
      show "idx' \<le> b" by (rule segs(1))
      show "\<exists>segs. tiles idx idx' (map snd segs)
               \<and> map snd (filter (\<lambda>s. \<not> fst s) segs) = ranges (?gap @ child # new)
               \<and> map snd (filter fst segs) =
                   map (\<lambda>c. (from' c, to c))
                     (filter (\<lambda>c. name c = ''PandocAttribute'') (c # rest))"
        using segs(2-4) ord False range
        by (intro exI [of _ "map (Pair False) ?g @ (False, from' c, to c) # segs"]) auto
    qed
  qed
qed

lemma parseChildren_leaf:
  "name node \<notin> set EMPTY_NODES \<Longrightarrow> children node = [] \<Longrightarrow>
   parseChildren ec astNode node md =
     Inr ([Text (TextNode ''text'' (from' node) (to node)
                   (substring md (from' node) (to node)) None)], snd astNode)"
  by (simp add: parseChildren.simps genericTextNode_def)

lemma parseChildren_children:
  assumes kind: "name node \<notin> set EMPTY_NODES"
    and sub: "children node \<noteq> []"
    and run: "parseChildren ec astNode node md = Inr (cs, as)"
  shows "filter is_Text cs = map (gap_leaf md) (gaps (from' node) (to node) (children node))"
    and "map Inr (filter (\<lambda>a. \<not> is_Text a) cs) =
          map (\<lambda>c. parseNode ec c md)
            (filter (\<lambda>c. name c \<noteq> ''PandocAttribute'') (children node))"
    and "ordered_within (from' node) (to node) (children node) \<Longrightarrow>
          \<exists>segs. tiles (from' node) (to node) (map snd segs)
            \<and> map snd (filter (\<lambda>s. \<not> fst s) segs) = ranges cs
            \<and> map snd (filter fst segs) =
                map (\<lambda>c. (from' c, to c))
                  (filter (\<lambda>c. name c = ''PandocAttribute'') (children node))"
proof -
  from run sub kind obtain cs' idx' where
    loop: "parseChildrenLoop ec node md (children node) (from' node) ([], snd astNode)
             = Inr ((cs', as), idx')"
    and cs: "cs = cs' @ map (gap_leaf md) (gaps idx' (to node) [])"
    by (auto simp: parseChildren.simps gap_leaf_def genericTextNode_def
        split: sum.splits if_splits)
  from parseChildrenLoop_children [OF kind loop]
  have new: "map Inr (filter (\<lambda>a. \<not> is_Text a) cs') =
          map (\<lambda>c. parseNode ec c md)
            (filter (\<lambda>c. name c \<noteq> ''PandocAttribute'') (children node))"
    "\<forall>t. filter is_Text cs' @ map (gap_leaf md) (gaps idx' t []) =
               map (gap_leaf md) (gaps (from' node) t (children node))"
    "\<forall>b. ordered_within (from' node) b (children node) \<longrightarrow> idx' \<le> b \<and>
            (\<exists>segs. tiles (from' node) idx' (map snd segs)
               \<and> map snd (filter (\<lambda>s. \<not> fst s) segs) = ranges cs'
               \<and> map snd (filter fst segs) =
                   map (\<lambda>c. (from' c, to c))
                     (filter (\<lambda>c. name c = ''PandocAttribute'') (children node)))"
    by auto
  have trailing: "filter is_Text (map (gap_leaf md) gs :: 'a ASTNode list) = map (gap_leaf md) gs"
    "filter (\<lambda>a. \<not> is_Text a) (map (gap_leaf md) gs :: 'a ASTNode list) = []" for gs
    by (induction gs) simp_all
  show "filter is_Text cs = map (gap_leaf md) (gaps (from' node) (to node) (children node))"
    using new(2) [rule_format, of "to node"] unfolding cs by (simp add: trailing)
  show "map Inr (filter (\<lambda>a. \<not> is_Text a) cs) =
          map (\<lambda>c. parseNode ec c md)
            (filter (\<lambda>c. name c \<noteq> ''PandocAttribute'') (children node))"
    using new(1) unfolding cs by (simp add: trailing)
  assume "ordered_within (from' node) (to node) (children node)"
  with new(3) obtain segs where
    segs: "idx' \<le> to node" "tiles (from' node) idx' (map snd segs)"
      "map snd (filter (\<lambda>s. \<not> fst s) segs) = ranges cs'"
      "map snd (filter fst segs) =
         map (\<lambda>c. (from' c, to c)) (filter (\<lambda>c. name c = ''PandocAttribute'') (children node))"
    by auto
  have "tiles idx' (to node) (map snd (map (Pair False) (gaps idx' (to node) [])))"
    using segs(1) by simp
  from tiles_append [OF segs(2) this] segs(3,4)
  show "\<exists>segs. tiles (from' node) (to node) (map snd segs)
            \<and> map snd (filter (\<lambda>s. \<not> fst s) segs) = ranges cs
            \<and> map snd (filter fst segs) =
                map (\<lambda>c. (from' c, to c))
                  (filter (\<lambda>c. name c = ''PandocAttribute'') (children node))"
    unfolding cs
    by (intro exI [of _ "segs @ map (Pair False) (gaps idx' (to node) [])"]) auto
qed

lemma tiles_unflagged:
  "tiles a b (map snd segs) \<Longrightarrow> filter fst segs = [] \<Longrightarrow>
   tiles a b (map snd (filter (\<lambda>s. \<not> fst s) segs))"
  by (simp add: filter_empty_conv)

text \<open>
  C3, as the code has it. Let \<open>parseChildren\<close> convert a node whose kind is not in
  \<open>EMPTY_NODES\<close>. If the node has no sub-nodes, the children are one \<open>Text\<close> leaf over the
  range of the node, holding the source text of that range. If it has sub-nodes, then the
  \<open>Text\<close> leaves among the children are, in order, one leaf for every gap before a
  sub-node and for the gap after the last one, each holding the source text of its gap;
  the other children are, in order, the conversions of the sub-nodes that are not a
  \<open>PandocAttribute\<close>; and a \<open>PandocAttribute\<close> sub-node is never appended. When the
  sub-nodes are in document order inside the range of the node, the ranges of the children
  together with the spans of the \<open>PandocAttribute\<close> sub-nodes tile the range of the node;
  without such a sub-node the ranges of the children alone do.
\<close>

theorem parseChildren_tiling:
  assumes "name node \<notin> set EMPTY_NODES"
  shows "(children node = [] \<longrightarrow>
            parseChildren ec astNode node md =
              Inr ([Text (TextNode ''text'' (from' node) (to node)
                            (substring md (from' node) (to node)) None)], snd astNode))
     \<and> (children node \<noteq> [] \<longrightarrow>
        (\<forall>cs as. parseChildren ec astNode node md = Inr (cs, as) \<longrightarrow>
           filter is_Text cs = map (gap_leaf md) (gaps (from' node) (to node) (children node))
           \<and> map Inr (filter (\<lambda>a. \<not> is_Text a) cs) =
               map (\<lambda>c. parseNode ec c md)
                 (filter (\<lambda>c. name c \<noteq> ''PandocAttribute'') (children node))
           \<and> (ordered_within (from' node) (to node) (children node) \<longrightarrow>
                (\<exists>segs. tiles (from' node) (to node) (map snd segs)
                   \<and> map snd (filter (\<lambda>s. \<not> fst s) segs) = ranges cs
                   \<and> map snd (filter fst segs) =
                       map (\<lambda>c. (from' c, to c))
                         (filter (\<lambda>c. name c = ''PandocAttribute'') (children node)))
                \<and> ((\<forall>c \<in> set (children node). name c \<noteq> ''PandocAttribute'') \<longrightarrow>
                     tiles (from' node) (to node) (ranges cs)))))"
proof (intro conjI impI allI)
  assume "children node = []"
  then show "parseChildren ec astNode node md =
      Inr ([Text (TextNode ''text'' (from' node) (to node)
                    (substring md (from' node) (to node)) None)], snd astNode)"
    by (rule parseChildren_leaf [OF assms])
next
  fix cs as
  assume sub: "children node \<noteq> []" and run: "parseChildren ec astNode node md = Inr (cs, as)"
  note facts = parseChildren_children [OF assms sub run]
  show "filter is_Text cs = map (gap_leaf md) (gaps (from' node) (to node) (children node))"
    by (rule facts(1))
  show "map Inr (filter (\<lambda>a. \<not> is_Text a) cs) =
      map (\<lambda>c. parseNode ec c md) (filter (\<lambda>c. name c \<noteq> ''PandocAttribute'') (children node))"
    by (rule facts(2))
  assume ord: "ordered_within (from' node) (to node) (children node)"
  show "\<exists>segs. tiles (from' node) (to node) (map snd segs)
      \<and> map snd (filter (\<lambda>s. \<not> fst s) segs) = ranges cs
      \<and> map snd (filter fst segs) =
          map (\<lambda>c. (from' c, to c)) (filter (\<lambda>c. name c = ''PandocAttribute'') (children node))"
    by (rule facts(3) [OF ord])
  assume none: "\<forall>c \<in> set (children node). name c \<noteq> ''PandocAttribute''"
  from facts(3) [OF ord] obtain segs where
    segs: "tiles (from' node) (to node) (map snd segs)"
      "map snd (filter (\<lambda>s. \<not> fst s) segs) = ranges cs"
      "map snd (filter fst segs) =
         map (\<lambda>c. (from' c, to c)) (filter (\<lambda>c. name c = ''PandocAttribute'') (children node))"
    by blast
  from none have "filter (\<lambda>c. name c = ''PandocAttribute'') (children node) = []"
    by (simp add: filter_empty_conv)
  with segs(3) have "filter fst segs = []"
    by simp
  from tiles_unflagged [OF segs(1) this] segs(2)
  show "tiles (from' node) (to node) (ranges cs)"
    by simp
qed

text \<open>
  The paragraph \<open>a{.b}c*d*e\<close>, whose sub-nodes are a \<open>PandocAttribute\<close> over \<open>{.b}\<close> and an
  \<open>Emphasis\<close> over \<open>*d*\<close>: the children are the leaves \<open>a\<close> and \<open>c\<close> around the attribute,
  the emphasis and the leaf \<open>e\<close>. The paragraph \<open>a *b* c\<close> without an attribute, and the
  paragraph \<open>abc\<close> without sub-nodes.
\<close>

theorem parseChildren_tiling_witness:
  "name (SyntaxNode ''Paragraph'' 0 10
           [SyntaxNode ''PandocAttribute'' 1 5 [],
            SyntaxNode ''Emphasis'' 6 9
              [SyntaxNode ''EmphasisMark'' 6 7 [], SyntaxNode ''EmphasisMark'' 8 9 []]])
      \<notin> set EMPTY_NODES
   \<and> ordered_within 0 10
        [SyntaxNode ''PandocAttribute'' 1 5 [],
         SyntaxNode ''Emphasis'' 6 9
           [SyntaxNode ''EmphasisMark'' 6 7 [], SyntaxNode ''EmphasisMark'' 8 9 []]]
   \<and> parseChildren no_citations ([], None)
        (SyntaxNode ''Paragraph'' 0 10
           [SyntaxNode ''PandocAttribute'' 1 5 [],
            SyntaxNode ''Emphasis'' 6 9
              [SyntaxNode ''EmphasisMark'' 6 7 [], SyntaxNode ''EmphasisMark'' 8 9 []]])
        ''a{.b}c*d*e''
      = Inr ([Text (TextNode ''text'' 0 1 ''a'' None),
              Text (TextNode ''text'' 5 6 ''c'' None),
              Emphasis ''Emphasis'' ''italic'' 6 9
                [Generic ''EmphasisMark'' 6 7 [] None,
                 Text (TextNode ''text'' 7 8 ''d'' None),
                 Generic ''EmphasisMark'' 8 9 [] None] None,
              Text (TextNode ''text'' 9 10 ''e'' None)], Some [(''class'', ''b'')])
   \<and> map (gap_leaf ''a{.b}c*d*e'')
        (gaps 0 10
           [SyntaxNode ''PandocAttribute'' 1 5 [],
            SyntaxNode ''Emphasis'' 6 9
              [SyntaxNode ''EmphasisMark'' 6 7 [], SyntaxNode ''EmphasisMark'' 8 9 []]])
      = [Text (TextNode ''text'' 0 1 ''a'' None), Text (TextNode ''text'' 5 6 ''c'' None),
         Text (TextNode ''text'' 9 10 ''e'' None) :: unit ASTNode]
   \<and> (\<exists>segs. tiles 0 10 (map snd segs)
         \<and> map snd (filter (\<lambda>s. \<not> fst s) segs) = [(0, 1), (5, 6), (6, 9), (9, 10)]
         \<and> map snd (filter fst segs) = [(1, 5)])
   \<and> tiles 0 7 (ranges
        [Text (TextNode ''text'' 0 2 ''a '' None),
         Emphasis ''Emphasis'' ''italic'' 2 5
           [Generic ''EmphasisMark'' 2 3 [] None,
            Text (TextNode ''text'' 3 4 ''b'' None),
            Generic ''EmphasisMark'' 4 5 [] None] None,
         Text (TextNode ''text'' 5 7 '' c'' None) :: unit ASTNode])
   \<and> parseChildren no_citations ([], None) (SyntaxNode ''Paragraph'' 0 3 []) ''abc''
      = Inr ([Text (TextNode ''text'' 0 3 ''abc'' None)], None)"
proof -
  let ?subs = "[SyntaxNode ''PandocAttribute'' 1 5 [],
            SyntaxNode ''Emphasis'' 6 9
              [SyntaxNode ''EmphasisMark'' 6 7 [], SyntaxNode ''EmphasisMark'' 8 9 []]]"
  let ?node = "SyntaxNode ''Paragraph'' 0 10 ?subs"
  let ?cs = "[Text (TextNode ''text'' 0 1 ''a'' None),
              Text (TextNode ''text'' 5 6 ''c'' None),
              Emphasis ''Emphasis'' ''italic'' 6 9
                [Generic ''EmphasisMark'' 6 7 [] None,
                 Text (TextNode ''text'' 7 8 ''d'' None),
                 Generic ''EmphasisMark'' 8 9 [] None] None,
              Text (TextNode ''text'' 9 10 ''e'' None)] :: unit ASTNode list"
  let ?plain = "SyntaxNode ''Paragraph'' 0 7
           [SyntaxNode ''Emphasis'' 2 5
              [SyntaxNode ''EmphasisMark'' 2 3 [], SyntaxNode ''EmphasisMark'' 4 5 []]]"
  let ?ps = "[Text (TextNode ''text'' 0 2 ''a '' None),
         Emphasis ''Emphasis'' ''italic'' 2 5
           [Generic ''EmphasisMark'' 2 3 [] None,
            Text (TextNode ''text'' 3 4 ''b'' None),
            Generic ''EmphasisMark'' 4 5 [] None] None,
         Text (TextNode ''text'' 5 7 '' c'' None)] :: unit ASTNode list"
  have kind: "name ?node \<notin> set EMPTY_NODES" "name ?plain \<notin> set EMPTY_NODES"
    "name (SyntaxNode ''Paragraph'' 0 3 []) \<notin> set EMPTY_NODES"
    by (simp_all add: EMPTY_NODES_def)
  have sub: "children ?node \<noteq> []" "children ?plain \<noteq> []"
    by simp_all
  have ord: "ordered_within (from' ?node) (to ?node) (children ?node)"
    "ordered_within (from' ?plain) (to ?plain) (children ?plain)"
    by simp_all
  have none: "\<forall>c \<in> set (children ?plain). name c \<noteq> ''PandocAttribute''"
    by simp
  have run: "parseChildren no_citations ([], None) ?node ''a{.b}c*d*e''
      = Inr (?cs, Some [(''class'', ''b'')])"
    by code_simp
  have plain: "parseChildren no_citations ([], None) ?plain ''a *b* c'' = Inr (?ps, None)"
    by code_simp
  note at_node = parseChildren_tiling [OF kind(1), THEN conjunct2, rule_format, OF sub(1) run]
  note at_plain = parseChildren_tiling [OF kind(2), THEN conjunct2, rule_format, OF sub(2) plain]
  have leaves: "map (gap_leaf ''a{.b}c*d*e'') (gaps 0 10 ?subs)
      = [Text (TextNode ''text'' 0 1 ''a'' None), Text (TextNode ''text'' 5 6 ''c'' None),
         Text (TextNode ''text'' 9 10 ''e'' None) :: unit ASTNode]"
    using at_node [THEN conjunct1] by simp
  have tiling: "\<exists>segs. tiles 0 10 (map snd segs)
         \<and> map snd (filter (\<lambda>s. \<not> fst s) segs) = [(0, 1), (5, 6), (6, 9), (9, 10)]
         \<and> map snd (filter fst segs) = [(1, 5)]"
    using at_node [THEN conjunct2, THEN conjunct2, THEN mp, OF ord(1), THEN conjunct1]
    by (simp add: ast_from_def ast_to_def)
  have alone: "tiles 0 7 (ranges ?ps)"
    using at_plain [THEN conjunct2, THEN conjunct2, THEN mp, OF ord(2), THEN conjunct2,
        THEN mp, OF none]
    by simp
  have leaf: "parseChildren no_citations ([], None) (SyntaxNode ''Paragraph'' 0 3 []) ''abc''
      = Inr ([Text (TextNode ''text'' 0 3 ''abc'' None)], None)"
    using parseChildren_tiling [OF kind(3), of no_citations "([], None)" "''abc''",
        THEN conjunct1]
    by (simp add: substring_def clamp_index_def)
  from kind(1) ord(1) run leaves tiling alone leaf show ?thesis
    by simp
qed

text \<open>
  C3 as stated fails on the paragraph \<open>a{.b}\<close>, whose sub-node is a \<open>PandocAttribute\<close> over
  \<open>{.b}\<close>: the sub-node is merged into the attributes and not appended, so the only child
  is the leaf \<open>a\<close> over \<open>[0, 1)\<close>, which does not tile \<open>[0, 5)\<close>.
\<close>

theorem parseChildren_tiling_counterexample:
  "''Paragraph'' \<notin> set EMPTY_NODES
   \<and> ordered_within 0 5 [SyntaxNode ''PandocAttribute'' 1 5 []]
   \<and> parseChildren no_citations ([], None)
        (SyntaxNode ''Paragraph'' 0 5 [SyntaxNode ''PandocAttribute'' 1 5 []]) ''a{.b}''
      = Inr ([Text (TextNode ''text'' 0 1 ''a'' None)], Some [(''class'', ''b'')])
   \<and> \<not> tiles 0 5 (ranges [Text (TextNode ''text'' 0 1 ''a'' None) :: unit ASTNode])"
proof -
  have "parseChildren no_citations ([], None)
        (SyntaxNode ''Paragraph'' 0 5 [SyntaxNode ''PandocAttribute'' 1 5 []]) ''a{.b}''
      = Inr ([Text (TextNode ''text'' 0 1 ''a'' None)], Some [(''class'', ''b'')])"
    by code_simp
  then show ?thesis
    by (simp add: EMPTY_NODES_def)
qed

section \<open>Text nodes and the source text of their range\<close>

lemma verbatim_simps [simp]:
  "verbatim md (Text x) = (TextNode.value' x = substring md (TextNode.from' x) (TextNode.to x))"
  "verbatim md (Heading n f t v l as)"
  "verbatim md (Footnote n f t inl lb as)"
  "verbatim md (FencedCode n f t i s as)"
  "verbatim md (YAMLFrontmatter n f t i s as)"
  "verbatim md (InlineCode n f t s as)"
  "verbatim md (FootnoteRef n f t lb cs as) = (\<forall>a \<in> set cs. verbatim md a)"
  "verbatim md (Highlight n f t cs as) = (\<forall>a \<in> set cs. verbatim md a)"
  "verbatim md (List n f t b cs as) = (\<forall>a \<in> set cs. verbatim md a)"
  "verbatim md (ListItem n f t c m cs as) = (\<forall>a \<in> set cs. verbatim md a)"
  "verbatim md (Emphasis n w f t cs as) = (\<forall>a \<in> set cs. verbatim md a)"
  "verbatim md (Table n f t cs as) = (\<forall>a \<in> set cs. verbatim md a)"
  "verbatim md (TableRow n f t h cs as) = (\<forall>a \<in> set cs. verbatim md a)"
  "verbatim md (TableCell n f t cs as) = (\<forall>a \<in> set cs. verbatim md a)"
  "verbatim md (Generic n f t cs as) = (\<forall>a \<in> set cs. verbatim md a)"
  by (auto simp: verbatim_def)

lemma parseChildrenLoop_verbatim:
  assumes "\<And>c ast. c \<in> set chs \<Longrightarrow> parseNode ec c md = Inr ast \<Longrightarrow> verbatim md ast"
  shows "parseChildrenLoop ec node md chs idx (acc, at) = Inr ((cs, as), idx') \<Longrightarrow>
    \<forall>a \<in> set acc. verbatim md a \<Longrightarrow> \<forall>a \<in> set cs. verbatim md a"
  using assms
proof (induction chs arbitrary: idx acc at)
  case Nil
  then show ?case by simp
next
  case (Cons c rest)
  let ?acc = "if from' c > idx \<and> name node \<notin> set EMPTY_NODES
              then acc @ [Text (genericTextNode idx (from' c) (substring md idx (from' c)))]
              else acc"
  have acc: "\<forall>a \<in> set ?acc. verbatim md a"
    using Cons.prems(2) by (simp add: genericTextNode_def)
  have rest: "verbatim md ast" if "c' \<in> set rest" "parseNode ec c' md = Inr ast" for c' ast
    using Cons.prems(3) [of c' ast] that by simp
  show ?case
  proof (cases "name c = ''PandocAttribute''")
    case True
    with Cons.prems(1)
    have "parseChildrenLoop ec node md rest (to c)
            (?acc, Some (parseAttributeNode at c md)) = Inr ((cs, as), idx')"
      by (simp add: Let_def cong: if_cong)
    from Cons.IH [OF this acc rest] show ?thesis .
  next
    case False
    with Cons.prems(1) obtain child where
      child: "parseNode ec c md = Inr child"
      and loop: "parseChildrenLoop ec node md rest (to c) (?acc @ [child], at)
                   = Inr ((cs, as), idx')"
      by (auto simp: Let_def cong: if_cong split: sum.splits)
    have "verbatim md child"
      using Cons.prems(3) [OF _ child] by simp
    with acc have "\<forall>a \<in> set (?acc @ [child]). verbatim md a"
      by simp
    from Cons.IH [OF loop this rest] show ?thesis .
  qed
qed

lemma parseChildren_verbatim:
  assumes "\<And>c ast. c \<in> set (children node) \<Longrightarrow> parseNode ec c md = Inr ast \<Longrightarrow> verbatim md ast"
    and "parseChildren ec ([], at) node md = Inr (cs, as)"
  shows "\<forall>a \<in> set cs. verbatim md a"
proof (cases "children node = []")
  case True
  with assms(2) show ?thesis
    by (auto simp: parseChildren.simps genericTextNode_def split: if_splits)
next
  case False
  with assms(2) obtain cs' idx' where
    loop: "parseChildrenLoop ec node md (children node) (from' node) ([], at)
             = Inr ((cs', as), idx')"
    and cs: "cs = cs' \<or> cs = cs' @ [Text (genericTextNode idx' (to node)
                                            (substring md idx' (to node)))]"
    by (auto simp: parseChildren.simps split: sum.splits if_splits)
  have "\<forall>a \<in> set cs'. verbatim md a"
    by (rule parseChildrenLoop_verbatim [OF assms(1) loop]) simp_all
  with cs show ?thesis
    by (auto simp: genericTextNode_def)
qed

lemma parseListItems_verbatim:
  assumes "\<And>item c ast. item \<in> set its \<Longrightarrow> c \<in> set (children item) \<Longrightarrow>
             parseNode ec c md = Inr ast \<Longrightarrow> verbatim md ast"
  shows "parseListItems ec isOrdered md its = Inr lis \<Longrightarrow> \<forall>a \<in> set lis. verbatim md a"
  using assms
proof (induction its arbitrary: lis)
  case Nil
  then show ?case by simp
next
  case (Cons item rest)
  from Cons.prems(1) obtain ck mk cs as lis' where
    lis: "lis = ListItem ''ListItem'' (from' item) (to item) ck mk cs as # lis'"
    and item: "parseChildren ec ([], None) item md = Inr (cs, as)"
    and rest: "parseListItems ec isOrdered md rest = Inr lis'"
    by (auto simp: Let_def split: sum.splits prod.splits)
  have "\<forall>a \<in> set cs. verbatim md a"
    by (rule parseChildren_verbatim [OF _ item]) (rule Cons.prems(2), simp_all)
  moreover have "\<forall>a \<in> set lis'. verbatim md a"
    by (rule Cons.IH [OF rest]) (rule Cons.prems(2), simp_all)
  ultimately show ?case
    unfolding lis by simp
qed

lemma parseTableCells_verbatim:
  assumes "\<And>cell c ast. cell \<in> set tcells \<Longrightarrow> c \<in> set (children cell) \<Longrightarrow>
             parseNode ec c md = Inr ast \<Longrightarrow> verbatim md ast"
  shows "parseTableCells ec md tcells = Inr cls \<Longrightarrow> \<forall>a \<in> set cls. verbatim md a"
  using assms
proof (induction tcells arbitrary: cls)
  case Nil
  then show ?case by simp
next
  case (Cons cell rest)
  from Cons.prems(1) obtain cs as cls' where
    cls: "cls = TableCell ''TableCell'' (from' cell) (to cell) cs as # cls'"
    and cell: "parseChildren ec ([], None) cell md = Inr (cs, as)"
    and rest: "parseTableCells ec md rest = Inr cls'"
    by (auto split: sum.splits prod.splits)
  have "\<forall>a \<in> set cs. verbatim md a"
    by (rule parseChildren_verbatim [OF _ cell]) (rule Cons.prems(2), simp_all)
  moreover have "\<forall>a \<in> set cls'. verbatim md a"
    by (rule Cons.IH [OF rest]) (rule Cons.prems(2), simp_all)
  ultimately show ?case
    unfolding cls by simp
qed

lemma parseTableRows_verbatim:
  assumes "\<And>row cell c ast. row \<in> set trows \<Longrightarrow> cell \<in> set (children row) \<Longrightarrow>
             c \<in> set (children cell) \<Longrightarrow> parseNode ec c md = Inr ast \<Longrightarrow> verbatim md ast"
  shows "parseTableRows ec md trows = Inr rs \<Longrightarrow> \<forall>a \<in> set rs. verbatim md a"
  using assms
proof (induction trows arbitrary: rs)
  case Nil
  then show ?case by simp
next
  case (Cons row rest)
  from Cons.prems(1) obtain cls rs' where
    rs: "rs = TableRow (name row) (from' row) (to row) (name row = ''TableHeader'') cls None # rs'"
    and row: "parseTableCells ec md (getChildren row ''TableCell'') = Inr cls"
    and rest: "parseTableRows ec md rest = Inr rs'"
    by (auto split: sum.splits)
  have "\<forall>a \<in> set cls. verbatim md a"
    by (rule parseTableCells_verbatim [OF _ row])
      (rule Cons.prems(2) [of row], simp_all add: getChildren_def)
  moreover have "\<forall>a \<in> set rs'. verbatim md a"
    by (rule Cons.IH [OF rest]) (rule Cons.prems(2), simp_all)
  ultimately show ?case
    unfolding rs by simp
qed

lemma parseNode_verbatim:
  "parseNode ec node md = Inr ast \<Longrightarrow> verbatim md ast"
proof (induction node arbitrary: ast rule: measure_induct_rule [where f = size])
  case (less node)
  have IH: "verbatim md a" if "size c < size node" "parseNode ec c md = Inr a" for c a
    using less.IH [OF that] .
  have below: "\<forall>a \<in> set cs. verbatim md a"
    if "size n \<le> size node" "parseChildren ec ([], None) n md = Inr (cs, as)" for n cs as
  proof (rule parseChildren_verbatim [OF _ that(2)])
    fix c a assume "c \<in> set (children n)" "parseNode ec c md = Inr a"
    with size_child [of c n] that(1) show "verbatim md a"
      by (intro IH [of c a]) simp_all
  qed
  have direct: "verbatim md ast"
    if "name node \<in> set [''Image'', ''Link'', ''URL'', ''ATXHeading1'', ''ATXHeading2'',
          ''ATXHeading3'', ''ATXHeading4'', ''ATXHeading5'', ''ATXHeading6'', ''SetextHeading1'',
          ''SetextHeading2'', ''Citation'', ''Footnote'', ''FencedCode'', ''CodeBlock'',
          ''InlineCode'', ''ZknLink'', ''ZknTag'']"
    using that less.prems unfolding list.set insert_iff empty_iff
    by (elim disjE)
      (auto simp: parseNode.simps Let_def genericTextNode_def verbatim_def
        split: option.splits list.splits if_splits)
  have footnote_ref: "verbatim md ast" if kind: "name node = ''FootnoteRef''"
  proof (cases "getChild node ''FootnoteRefBody''")
    case None
    with kind less.prems show ?thesis
      by (auto simp: parseNode.simps Let_def)
  next
    case (Some body)
    with kind less.prems obtain cs as lb where
      "ast = FootnoteRef ''FootnoteRef'' (from' node) (to node) lb cs as"
      "parseChildren ec ([], None) body md = Inr (cs, as)"
      by (auto simp: parseNode.simps Let_def split: sum.splits)
    with below [of body cs as] size_getChild [OF Some] show ?thesis
      by simp
  qed
  have highlight: "verbatim md ast" if kind: "name node = ''Highlight''"
  proof -
    obtain n where n: "n = (case getChild node ''HighlightContent'' of
                              Some content \<Rightarrow> content | None \<Rightarrow> node)"
      by simp
    have small: "size n \<le> size node"
      using size_getChild [of node "''HighlightContent''"] unfolding n
      by (auto split: option.split intro: less_imp_le)
    from kind less.prems obtain cs as where
      "ast = Highlight ''Highlight'' (from' node) (to node) cs as"
      "parseChildren ec ([], None) n md = Inr (cs, as)"
      unfolding n by (auto simp: parseNode.simps split: sum.splits option.splits)
    with below [OF small] show ?thesis
      by simp
  qed
  have list: "verbatim md ast" if kind: "name node = ''OrderedList'' \<or> name node = ''BulletList''"
  proof -
    from less.prems obtain lis where
      ast: "ast = List (name node) (from' node) (to node) (name node = ''OrderedList'') lis None"
      and lis: "parseListItems ec (name node = ''OrderedList'') md (getChildren node ''ListItem'')
                  = Inr lis"
      unfolding parseNode_list [OF kind] by (auto split: sum.splits)
    have "\<forall>a \<in> set lis. verbatim md a"
    proof (rule parseListItems_verbatim [OF _ lis])
      fix item c a
      assume "item \<in> set (getChildren node ''ListItem'')" "c \<in> set (children item)"
        "parseNode ec c md = Inr a"
      with size_child [of c item] size_child [of item node] show "verbatim md a"
        by (intro IH [of c a]) (simp_all add: getChildren_def)
    qed
    then show ?thesis
      unfolding ast by simp
  qed
  have emphasis: "verbatim md ast" if kind: "name node = ''Emphasis'' \<or> name node = ''StrongEmphasis''"
  proof -
    from kind less.prems obtain cs as w where
      "ast = Emphasis ''Emphasis'' w (from' node) (to node) cs as"
      "parseChildren ec ([], None) node md = Inr (cs, as)"
      by (elim disjE) (auto simp: parseNode.simps split: sum.splits)
    with below [of node cs as] show ?thesis
      by simp
  qed
  have table: "verbatim md ast" if kind: "name node = ''Table''"
  proof -
    from kind less.prems obtain rs where
      ast: "ast = Table ''Table'' (from' node) (to node) rs None"
      and rs: "parseTableRows ec md
                 (getChildren node ''TableHeader'' @ getChildren node ''TableRow'') = Inr rs"
      by (auto simp: parseNode.simps split: sum.splits)
    have "\<forall>a \<in> set rs. verbatim md a"
    proof (rule parseTableRows_verbatim [OF _ rs])
      fix row cell c a
      assume "row \<in> set (getChildren node ''TableHeader'' @ getChildren node ''TableRow'')"
        "cell \<in> set (children row)" "c \<in> set (children cell)" "parseNode ec c md = Inr a"
      with size_child [of c cell] size_child [of cell row] size_child [of row node]
      show "verbatim md a"
        by (intro IH [of c a]) (auto simp: getChildren_def)
    qed
    then show ?thesis
      unfolding ast by simp
  qed
  show ?case
  proof (rule kind_cases [of node])
    assume "name node \<notin> set dedicated_kinds"
    with less.prems obtain cs as where
      "ast = Generic (name node) (from' node) (to node) cs as"
      "parseChildren ec ([], None) node md = Inr (cs, as)"
      by (auto simp: parseNode_default split: sum.splits)
    with below [of node cs as] show ?thesis
      by simp
  next
    fix k assume "k \<in> set dedicated_kinds" "name node = k"
    then show ?thesis
      using direct footnote_ref highlight list emphasis table
      unfolding dedicated_kinds_def list.set insert_iff empty_iff
      by blast
  qed
qed

text \<open>
  C10, as the code has it. The \<open>value\<close> of the \<open>Heading\<close> made from a Setext heading node
  with a \<open>HeaderMark\<close> child has the range from \<open>mark.to\<close> to \<open>node.to\<close>, and its string is
  the trimmed source text from \<open>node.from\<close> to \<open>mark.from\<close>: the text before the mark, not
  the text of that range. For the heading \<open>a\<close> underlined with \<open>---\<close> the range is \<open>[5, 5)\<close>,
  of empty source text, and the string is \<open>a\<close>. Every \<open>TextNode\<close> that \<open>parseNode\<close> produces
  outside the \<open>value\<close> of a heading holds the source text of its own range. (The \<open>value\<close> of
  an ATX heading is trimmed as well, see the counterexample.)
\<close>

theorem setext_heading_value:
  "(\<forall>ec node md m.
      name node = ''SetextHeading1'' \<or> name node = ''SetextHeading2'' \<longrightarrow>
      getChild node ''HeaderMark'' = Some m \<longrightarrow>
      (\<exists>lv. parseNode ec node md =
              Inr (Heading (name node) (from' node) (to node)
                     (TextNode ''text'' (to m) (to node)
                        (trim (substring md (from' node) (from' m))) None)
                     lv None)))
   \<and> parseNode no_citations
        (SyntaxNode ''SetextHeading2'' 0 5 [SyntaxNode ''HeaderMark'' 2 5 []])
        (''a'' @ [CHR 0x0A] @ ''---'')
      = Inr (Heading ''SetextHeading2'' 0 5 (TextNode ''text'' 5 5 ''a'' None) 2 None)
   \<and> substring (''a'' @ [CHR 0x0A] @ ''---'') 5 5 \<noteq> ''a''
   \<and> (\<forall>ec node md ast.
        parseNode ec node md = Inr ast \<longrightarrow>
        (\<forall>t \<in> set (text_nodes ast).
           TextNode.value' t = substring md (TextNode.from' t) (TextNode.to t)))"
proof (intro conjI allI impI)
  fix ec :: "string \<Rightarrow> 'a list" and node md m
  assume "name node = ''SetextHeading1'' \<or> name node = ''SetextHeading2''"
    and "getChild node ''HeaderMark'' = Some m"
  then show "\<exists>lv. parseNode ec node md =
              Inr (Heading (name node) (from' node) (to node)
                     (TextNode ''text'' (to m) (to node)
                        (trim (substring md (from' node) (from' m))) None)
                     lv None)"
    by (simp add: parseNode_SetextHeading Let_def genericTextNode_def)
next
  show "parseNode no_citations
        (SyntaxNode ''SetextHeading2'' 0 5 [SyntaxNode ''HeaderMark'' 2 5 []])
        (''a'' @ [CHR 0x0A] @ ''---'')
      = Inr (Heading ''SetextHeading2'' 0 5 (TextNode ''text'' 5 5 ''a'' None) 2 None)"
    by (rule heading_examples)
next
  show "substring (''a'' @ [CHR 0x0A] @ ''---'') 5 5 \<noteq> ''a''"
    by (simp add: substring_def clamp_index_def)
next
  fix ec :: "string \<Rightarrow> 'b list" and node md ast
  assume "parseNode ec node md = Inr ast"
  then show "\<forall>t \<in> set (text_nodes ast).
           TextNode.value' t = substring md (TextNode.from' t) (TextNode.to t)"
    using parseNode_verbatim [of ec node md ast] by (simp add: verbatim_def)
qed

theorem setext_heading_value_witness:
  "getChild (SyntaxNode ''SetextHeading1'' 0 7 [SyntaxNode ''HeaderMark'' 4 7 []]) ''HeaderMark''
     = Some (SyntaxNode ''HeaderMark'' 4 7 [])
   \<and> (\<exists>lv. parseNode no_citations
              (SyntaxNode ''SetextHeading1'' 0 7 [SyntaxNode ''HeaderMark'' 4 7 []])
              (''abc'' @ [CHR 0x0A] @ ''==='')
            = Inr (Heading ''SetextHeading1'' 0 7 (TextNode ''text'' 7 7 ''abc'' None) lv None))
   \<and> parseNode no_citations
        (SyntaxNode ''Paragraph'' 2 7 [SyntaxNode ''ZknTag'' 2 6 []]) ''a #tag b''
      = Inr (Generic ''Paragraph'' 2 7
               [ZettelkastenTag ''ZknTag'' 2 6 (TextNode ''text'' 2 6 ''#tag'' None) None,
                Text (TextNode ''text'' 6 7 '' '' None)] None)
   \<and> TextNode.value' (TextNode ''text'' 2 6 ''#tag'' None) = substring ''a #tag b'' 2 6
   \<and> TextNode.value' (TextNode ''text'' 6 7 '' '' None) = substring ''a #tag b'' 6 7"
proof -
  have kind: "name (SyntaxNode ''SetextHeading1'' 0 7 [SyntaxNode ''HeaderMark'' 4 7 []])
        = ''SetextHeading1''
      \<or> name (SyntaxNode ''SetextHeading1'' 0 7 [SyntaxNode ''HeaderMark'' 4 7 []])
        = ''SetextHeading2''"
    by simp
  have mark: "getChild (SyntaxNode ''SetextHeading1'' 0 7 [SyntaxNode ''HeaderMark'' 4 7 []])
        ''HeaderMark'' = Some (SyntaxNode ''HeaderMark'' 4 7 [])"
    by (simp add: getChild_def)
  have run: "parseNode no_citations
        (SyntaxNode ''Paragraph'' 2 7 [SyntaxNode ''ZknTag'' 2 6 []]) ''a #tag b''
      = Inr (Generic ''Paragraph'' 2 7
               [ZettelkastenTag ''ZknTag'' 2 6 (TextNode ''text'' 2 6 ''#tag'' None) None,
                Text (TextNode ''text'' 6 7 '' '' None)] None)"
    by code_simp
  have trimmed: "trim (substring (''abc'' @ [CHR 0x0A] @ ''==='') 0 4) = ''abc''"
    by code_simp
  from setext_heading_value [THEN conjunct1, rule_format, OF kind mark,
      of no_citations "''abc'' @ [CHR 0x0A] @ ''===''"] trimmed
  have setext: "\<exists>lv. parseNode no_citations
              (SyntaxNode ''SetextHeading1'' 0 7 [SyntaxNode ''HeaderMark'' 4 7 []])
              (''abc'' @ [CHR 0x0A] @ ''==='')
            = Inr (Heading ''SetextHeading1'' 0 7 (TextNode ''text'' 7 7 ''abc'' None) lv None)"
    by simp
  from setext_heading_value [THEN conjunct2, THEN conjunct2, THEN conjunct2,
      THEN spec, THEN spec, THEN spec, THEN spec, THEN mp, OF run]
  have "TextNode.value' (TextNode ''text'' 2 6 ''#tag'' None) = substring ''a #tag b'' 2 6
      \<and> TextNode.value' (TextNode ''text'' 6 7 '' '' None) = substring ''a #tag b'' 6 7"
    by simp
  with mark setext run show ?thesis
    by blast
qed

text \<open>
  C10 as stated fails on the ATX heading \<open># a\<close>: the \<open>value\<close> of its \<open>Heading\<close> has the range
  \<open>[1, 3)\<close>, of source text \<open> a\<close> with the space, and the trimmed string \<open>a\<close>. The Setext
  heading is not the only place where a \<open>TextNode\<close> differs from the text of its range.
\<close>

theorem setext_heading_value_counterexample:
  "parseNode no_citations (SyntaxNode ''ATXHeading1'' 0 3 [SyntaxNode ''HeaderMark'' 0 1 []])
     ''# a'' = Inr (Heading ''ATXHeading1'' 0 3 (TextNode ''text'' 1 3 ''a'' None) 1 None)
   \<and> substring ''# a'' 1 3 = '' a''
   \<and> TextNode.value' (TextNode ''text'' 1 3 ''a'' None) \<noteq> substring ''# a'' 1 3"
proof -
  have "parseNode no_citations (SyntaxNode ''ATXHeading1'' 0 3 [SyntaxNode ''HeaderMark'' 0 1 []])
     ''# a'' = Inr (Heading ''ATXHeading1'' 0 3 (TextNode ''text'' 1 3 ''a'' None) 1 None)"
    by code_simp
  then show ?thesis
    by (simp add: substring_def clamp_index_def)
qed

end
